theory Spec2Isabelle
  imports Complex_Main "HOL-Library.Multiset"
begin

section \<open>Conventions of the embedding\<close>

text \<open>
  The program \<^verbatim>\<open>xrd.py\<close> computes with IEEE doubles through numpy. The embedding
  idealises every floating-point number as a \<^typ>\<open>real\<close>: arithmetic is exact and
  \<open>sqrt\<close>, \<open>exp\<close>, \<open>sin\<close>, \<open>cos\<close>, \<open>arcsin\<close> are the mathematical functions.
  Rounding, \<open>inf\<close> and \<open>nan\<close> are outside the model. Where numpy would go on with
  \<open>inf\<close> or \<open>nan\<close> (a division of an array by zero) the model stops with the
  outcome \<open>NonFinite\<close>, which is not a Python exception. Every Python exception of
  the modelled code is a constructor of \<open>failure\<close>.
\<close>

datatype failure =
    KeyError | TypeError | IndexError | ValueError
  | ZeroDivisionError | OverflowError | LinAlgError
  | NonFinite

text \<open>Reading a list at a non-negative index, as \<^verbatim>\<open>xs[i]\<close> does.\<close>

definition py_get :: "'a list \<Rightarrow> nat \<Rightarrow> failure + 'a" where
  "py_get xs i = (if i < length xs then Inr (xs ! i) else Inl IndexError)"

text \<open>\<^verbatim>\<open>np.where(cond)[0]\<close>: the indices at which a boolean array holds, ascending.\<close>

definition np_where :: "bool list \<Rightarrow> nat list" where
  "np_where bs = filter (\<lambda>i. bs ! i) [0..<length bs]"

section \<open>Post-processing: \<^verbatim>\<open>sum_intensity\<close> and \<^verbatim>\<open>normalize\<close>\<close>

text \<open>
  The two local functions are defined twice in the source, in \<^verbatim>\<open>plot\<close> and in
  \<^verbatim>\<open>get_dspacing\<close>, with the same text. The loop of \<^verbatim>\<open>sum_intensity\<close> runs over
  \<^verbatim>\<open>enumerate(x_list)\<close>; the state is the pair \<^verbatim>\<open>(new_x_list, new_y_list)\<close> and the
  index \<open>i\<close> of the entry being scanned.
\<close>

definition tolerance_default :: real where
  "tolerance_default = 1 / 100000"

fun sum_intensity_loop ::
  "real \<Rightarrow> real list \<Rightarrow> nat \<Rightarrow> real list \<Rightarrow> real list \<times> real list
    \<Rightarrow> failure + (real list \<times> real list)" where
  "sum_intensity_loop tolerance y_list i [] (new_x_list, new_y_list) =
     Inr (new_x_list, new_y_list)"
| "sum_intensity_loop tolerance y_list i (x_value # rest) (new_x_list, new_y_list) =
     (let index = np_where (map (\<lambda>r. \<bar>r - x_value\<bar> \<le> tolerance) new_x_list) in
      if length index > 0 then
        (case py_get new_y_list (index ! 0) of
           Inl e \<Rightarrow> Inl e
         | Inr old \<Rightarrow>
             (case py_get y_list i of
                Inl e \<Rightarrow> Inl e
              | Inr y \<Rightarrow>
                  sum_intensity_loop tolerance y_list (i + 1) rest
                    (new_x_list, new_y_list[index ! 0 := old + y])))
      else
        (case py_get y_list i of
           Inl e \<Rightarrow> Inl e
         | Inr y \<Rightarrow>
             sum_intensity_loop tolerance y_list (i + 1) rest
               (new_x_list @ [x_value], new_y_list @ [y])))"

definition sum_intensity ::
  "real list \<Rightarrow> real list \<Rightarrow> real \<Rightarrow> failure + (real list \<times> real list)" where
  "sum_intensity x_list y_list tolerance =
     sum_intensity_loop tolerance y_list 0 x_list ([], [])"

text \<open>Python's builtin \<^verbatim>\<open>max\<close> over a non-empty sequence.\<close>

fun py_max :: "real list \<Rightarrow> failure + real" where
  "py_max [] = Inl ValueError"
| "py_max (y # ys) = Inr (foldl (\<lambda>m v. if m < v then v else m) y ys)"

text \<open>
  \<^verbatim>\<open>y_list / max(y_list) * max_value\<close> on a numpy array. With a maximum of zero numpy
  divides by zero and the array holds \<open>inf\<close> or \<open>nan\<close>.
\<close>

definition normalize :: "real list \<Rightarrow> real \<Rightarrow> failure + real list" where
  "normalize y_list max_value =
     (case py_max y_list of
        Inl e \<Rightarrow> Inl e
      | Inr m \<Rightarrow>
          if m = 0 then Inl NonFinite
          else Inr (map (\<lambda>y. y / m * max_value) y_list))"

definition max_value_default :: real where
  "max_value_default = 100"

section \<open>Vectors and the reciprocal lattice\<close>

type_synonym vec3 = "real \<times> real \<times> real"

text \<open>A matrix is the triple of its rows, as numpy iterates or unpacks a 3x3 array.\<close>

type_synonym mat3 = "vec3 \<times> vec3 \<times> vec3"

type_synonym plane = "int \<times> int \<times> int"

text \<open>An atom is \<^verbatim>\<open>(element symbol, fractional position)\<close>: \<^verbatim>\<open>atom[0]\<close>, \<^verbatim>\<open>atom[1]\<close>.\<close>

type_synonym atom = "string \<times> vec3"

fun norm3 :: "vec3 \<Rightarrow> real" where
  "norm3 (x, y, z) = sqrt (x * x + y * y + z * z)"

fun dot3 :: "vec3 \<Rightarrow> vec3 \<Rightarrow> real" where
  "dot3 (x, y, z) (u, v, w) = x * u + y * v + z * w"

fun scale3 :: "real \<Rightarrow> vec3 \<Rightarrow> vec3" where
  "scale3 c (x, y, z) = (c * x, c * y, c * z)"

fun add3 :: "vec3 \<Rightarrow> vec3 \<Rightarrow> vec3" where
  "add3 (x, y, z) (u, v, w) = (x + u, y + v, z + w)"

fun plane_vec :: "plane \<Rightarrow> vec3" where
  "plane_vec (h, k, l) = (real_of_int h, real_of_int k, real_of_int l)"

text \<open>\<^verbatim>\<open>np.dot(v, M)\<close> for a vector and a 3x3 matrix.\<close>

fun vecmat :: "vec3 \<Rightarrow> mat3 \<Rightarrow> vec3" where
  "vecmat (h, k, l) ((a, b, c), (d, e, f), (g, i, j)) =
     (h * a + k * d + l * g, h * b + k * e + l * i, h * c + k * f + l * j)"

fun det3 :: "mat3 \<Rightarrow> real" where
  "det3 ((a, b, c), (d, e, f), (g, h, i)) =
     a * (e * i - f * h) - b * (d * i - f * g) + c * (d * h - e * g)"

text \<open>\<^verbatim>\<open>np.linalg.inv\<close>: the inverse, or \<^verbatim>\<open>LinAlgError\<close> on a singular matrix.\<close>

fun inv3 :: "mat3 \<Rightarrow> failure + mat3" where
  "inv3 ((a, b, c), (d, e, f), (g, h, i)) =
     (let det = det3 ((a, b, c), (d, e, f), (g, h, i)) in
      if det = 0 then Inl LinAlgError
      else Inr (((e * i - f * h) / det, (c * h - b * i) / det, (b * f - c * e) / det),
                ((f * g - d * i) / det, (a * i - c * g) / det, (c * d - a * f) / det),
                ((d * h - e * g) / det, (b * g - a * h) / det, (a * e - b * d) / det)))"

fun transpose3 :: "mat3 \<Rightarrow> mat3" where
  "transpose3 ((a, b, c), (d, e, f), (g, h, i)) = ((a, d, g), (b, e, h), (c, f, i))"

text \<open>Multiplying an array by a scalar on the right, entry by entry.\<close>

fun mat_times :: "mat3 \<Rightarrow> real \<Rightarrow> mat3" where
  "mat_times ((a, b, c), (d, e, f), (g, h, i)) s =
     ((a * s, b * s, c * s), (d * s, e * s, f * s), (g * s, h * s, i * s))"

section \<open>The model object and its constructor\<close>

record xrd =
  lattice :: mat3
  rec_lattice :: mat3
  atoms :: "atom list"
  wavelength :: real
  twotheta_list :: "real list option"
  inten_profile :: "(int \<times> int \<times> int \<times> real \<times> real) list option"
  intensity_list :: "real list option"

text \<open>The dictionary of \<^verbatim>\<open>get_wavelength\<close>, and the lookup \<^verbatim>\<open>xray_wavelength[anode]\<close>.\<close>

definition xray_wavelength :: "(string \<times> real) list" where
  "xray_wavelength =
     [(''CuKa1'', 1.5405981),
      (''CuKa2'', 1.54443),
      (''CuKb1'', 1.39225),
      (''WLa1'', 1.47642),
      (''WLa2'', 1.48748)]"

definition get_wavelength :: "string \<Rightarrow> failure + real" where
  "get_wavelength anode =
     (case map_of xray_wavelength anode of
        None \<Rightarrow> Inl KeyError
      | Some w \<Rightarrow> Inr w)"

text \<open>
  Python's builtin \<^verbatim>\<open>float\<close> on the specifier is a parameter \<open>pyfloat\<close> of the
  constructor: \<open>None\<close> where \<^verbatim>\<open>float(value)\<close> raises \<^verbatim>\<open>ValueError\<close>, the number
  otherwise.
\<close>

definition isfloat :: "(string \<Rightarrow> real option) \<Rightarrow> string \<Rightarrow> bool" where
  "isfloat pyfloat v = (case pyfloat v of None \<Rightarrow> False | Some r \<Rightarrow> True)"

text \<open>
  \<^verbatim>\<open>XRD.__init__\<close>. The reciprocal lattice is computed first (line 37), the
  wavelength is resolved after it (lines 40 to 43).
\<close>

definition XRD_init ::
  "(string \<Rightarrow> real option) \<Rightarrow> mat3 \<Rightarrow> atom list \<Rightarrow> string \<Rightarrow> failure + xrd" where
  "XRD_init pyfloat lat ats wl_spec =
     (case inv3 lat of
        Inl e \<Rightarrow> Inl e
      | Inr inv_lat \<Rightarrow>
          (case (if \<not> isfloat pyfloat wl_spec then get_wavelength wl_spec
                 else (case pyfloat wl_spec of
                         None \<Rightarrow> Inl ValueError
                       | Some r \<Rightarrow> Inr r)) of
             Inl e \<Rightarrow> Inl e
           | Inr wl \<Rightarrow>
               Inr \<lparr> lattice = lat,
                     rec_lattice = mat_times (mat_times (transpose3 inv_lat) pi) 2,
                     atoms = ats,
                     wavelength = wl,
                     twotheta_list = None,
                     inten_profile = None,
                     intensity_list = None \<rparr>))"

section \<open>Plane enumeration: \<^verbatim>\<open>get_kvec_list\<close>\<close>

definition MAX_INDEX :: int where
  "MAX_INDEX = 5"

text \<open>\<^verbatim>\<open>xrange(a, b)\<close>: the integers from \<open>a\<close> up to \<open>b - 1\<close>.\<close>

definition xrange :: "int \<Rightarrow> int \<Rightarrow> int list" where
  "xrange a b = [a..b - 1]"

text \<open>\<^verbatim>\<open>product(pool, repeat=3)\<close>: the last index runs fastest.\<close>

definition product3 :: "int list \<Rightarrow> plane list" where
  "product3 pool = concat (map (\<lambda>h. concat (map (\<lambda>k. map (\<lambda>l. (h, k, l)) pool) pool)) pool)"

text \<open>
  \<^verbatim>\<open>int(np.ceil(1. / wavelength / norm(k) * 4. * np.pi))\<close>. The wavelength is a Python
  float, so a zero wavelength raises \<^verbatim>\<open>ZeroDivisionError\<close>; \<^verbatim>\<open>norm(k)\<close> is a numpy
  scalar, a zero norm gives \<open>inf\<close> and \<^verbatim>\<open>int\<close> raises \<^verbatim>\<open>OverflowError\<close>.
\<close>

definition axis_index :: "real \<Rightarrow> vec3 \<Rightarrow> failure + int" where
  "axis_index wl k =
     (if wl = 0 then Inl ZeroDivisionError
      else if norm3 k = 0 then Inl OverflowError
      else Inr \<lceil>1 / wl / norm3 k * 4 * pi\<rceil>)"

text \<open>
  Lines 88 to 93: the value of \<^verbatim>\<open>max_index\<close> when the loop starts. The test
  \<^verbatim>\<open>if not max_index\<close> holds for \<^verbatim>\<open>None\<close> and for \<^verbatim>\<open>0\<close>.
\<close>

definition kvec_bound :: "xrd \<Rightarrow> vec3 \<Rightarrow> vec3 \<Rightarrow> vec3 \<Rightarrow> int option \<Rightarrow> failure + int" where
  "kvec_bound self k_1 k_2 k_3 max_index =
     (if max_index = None \<or> max_index = Some 0 then
        (case axis_index (wavelength self) k_1 of
           Inl e \<Rightarrow> Inl e
         | Inr h \<Rightarrow>
             (case axis_index (wavelength self) k_2 of
                Inl e \<Rightarrow> Inl e
              | Inr k \<Rightarrow>
                  (case axis_index (wavelength self) k_3 of
                     Inl e \<Rightarrow> Inl e
                   | Inr l \<Rightarrow> Inr (min MAX_INDEX (max (max h k) l)))))
      else (case max_index of None \<Rightarrow> Inl TypeError | Some m \<Rightarrow> Inr m))"

text \<open>Lines 96 and 97: \<^verbatim>\<open>sin_twotheta\<close> of a triple.\<close>

fun sin_twotheta :: "real \<Rightarrow> vec3 \<Rightarrow> vec3 \<Rightarrow> vec3 \<Rightarrow> plane \<Rightarrow> real" where
  "sin_twotheta wl k_1 k_2 k_3 (h, k, l) =
     (let q = add3 (add3 (scale3 (real_of_int h) k_1) (scale3 (real_of_int k) k_2))
                   (scale3 (real_of_int l) k_3)
      in wl * (norm3 q / 4 / pi))"

definition get_kvec_list ::
  "xrd \<Rightarrow> vec3 \<Rightarrow> vec3 \<Rightarrow> vec3 \<Rightarrow> int option \<Rightarrow> failure + plane list" where
  "get_kvec_list self k_1 k_2 k_3 max_index =
     (case kvec_bound self k_1 k_2 k_3 max_index of
        Inl e \<Rightarrow> Inl e
      | Inr m \<Rightarrow>
          Inr (filter (\<lambda>hkl. -1 \<le> sin_twotheta (wavelength self) k_1 k_2 k_3 hkl
                             \<and> sin_twotheta (wavelength self) k_1 k_2 k_3 hkl \<le> 1)
                 (product3 (xrange (- m) (m + 1)))))"

section \<open>Structure factors and intensities: \<^verbatim>\<open>get_xrd\<close>\<close>

text \<open>
  The data file \<^verbatim>\<open>form.txt\<close> is not part of the sources. It is a parameter: the list
  of its lines, each split into the element symbol and the numbers after it.
  \<^verbatim>\<open>get_atom_form\<close> returns the numbers of the first line whose symbol is the element,
  and \<^verbatim>\<open>None\<close> when there is no such line.
\<close>

type_synonym form_file = "(string \<times> real list) list"

definition get_atom_form :: "form_file \<Rightarrow> string \<Rightarrow> real list option" where
  "get_atom_form form_lines element = map_of form_lines element"

text \<open>
  Lines 123 to 127. Indexing \<^verbatim>\<open>None\<close> raises \<^verbatim>\<open>TypeError\<close>, indexing a list with
  fewer than nine numbers raises \<^verbatim>\<open>IndexError\<close>.
\<close>

definition atom_form :: "real list option \<Rightarrow> real \<Rightarrow> failure + real" where
  "atom_form a_form_parm y =
     (case a_form_parm of
        None \<Rightarrow> Inl TypeError
      | Some p \<Rightarrow>
          if length p < 9 then Inl IndexError
          else Inr (p ! 0 * exp (- (p ! 1) * y\<^sup>2) +
                    p ! 2 * exp (- (p ! 3) * y\<^sup>2) +
                    p ! 4 * exp (- (p ! 5) * y\<^sup>2) +
                    p ! 6 * exp (- (p ! 7) * y\<^sup>2) +
                    p ! 8))"

text \<open>Lines 131 to 135: the contribution of one atom, given its form factor.\<close>

definition s_factor :: "real \<Rightarrow> atom \<Rightarrow> plane \<Rightarrow> complex" where
  "s_factor f atom hkl =
     complex_of_real f *
     exp (2 * \<i> * complex_of_real pi * complex_of_real (dot3 (snd atom) (plane_vec hkl)))"

text \<open>
  The loop of lines 121 to 136 over \<^verbatim>\<open>elements\<close>, in the order in which Python
  iterates the set; the result is \<^verbatim>\<open>s_factor_list\<close>.
\<close>

fun s_factor_loop ::
  "form_file \<Rightarrow> atom list \<Rightarrow> plane \<Rightarrow> real \<Rightarrow> string list \<Rightarrow> failure + complex list" where
  "s_factor_loop form_lines ats hkl y [] = Inr []"
| "s_factor_loop form_lines ats hkl y (element # rest) =
     (case atom_form (get_atom_form form_lines element) y of
        Inl e \<Rightarrow> Inl e
      | Inr f \<Rightarrow>
          (case s_factor_loop form_lines ats hkl y rest of
             Inl e \<Rightarrow> Inl e
           | Inr others \<Rightarrow>
               Inr (map (\<lambda>atom. s_factor f atom hkl)
                      (filter (\<lambda>atom. fst atom = element) ats) @ others)))"

text \<open>What one pass of the loop over the triples does with its triple.\<close>

datatype outcome =
    Reflection "int \<times> int \<times> int \<times> real \<times> real"
  | Skipped
  | Printed real

text \<open>
  Lines 118 to 151 for one triple. \<open>elements\<close> is the list in which the set of line
  108 is iterated. With \<open>theta = -pi/2\<close> (a negative wavelength) the divisor of the
  Lorentz-polarization factor is zero and numpy goes on with \<open>inf\<close>.
\<close>

fun xrd_plane :: "form_file \<Rightarrow> string list \<Rightarrow> xrd \<Rightarrow> plane \<Rightarrow> failure + outcome" where
  "xrd_plane form_lines elements self (h, k, l) =
     (let q = vecmat (plane_vec (h, k, l)) (rec_lattice self);
          y = norm3 q / 4 / pi
      in case s_factor_loop form_lines (atoms self) (h, k, l) y elements of
           Inl e \<Rightarrow> Inl e
         | Inr s_factor_list \<Rightarrow>
             if -1 \<le> wavelength self * y \<and> wavelength self * y \<le> 1 then
               (let theta = arcsin (wavelength self * y) in
                if theta = pi / 2 \<or> theta = 0 then Inr Skipped
                else if 8 * (sin theta)\<^sup>2 * cos theta = 0 then Inl NonFinite
                else
                  (let lp_factor = (1 + (cos (theta * 2))\<^sup>2) / (8 * (sin theta)\<^sup>2 * cos theta);
                       inten = (cmod (sum_list s_factor_list))\<^sup>2 * lp_factor;
                       twotheta = 2 * 180 / pi * theta
                   in Inr (Reflection (h, k, l, twotheta, inten))))
             else Inr (Printed (wavelength self * y)))"

text \<open>
  The three lists the loop appends to, and the numbers it prints, in the order
  \<^verbatim>\<open>(inten_profile, intensity_list, twotheta_list, printed)\<close>.
\<close>

type_synonym xrd_acc =
  "(int \<times> int \<times> int \<times> real \<times> real) list \<times> real list \<times> real list \<times> real list"

fun record_outcome :: "outcome \<Rightarrow> xrd_acc \<Rightarrow> xrd_acc" where
  "record_outcome (Reflection (h, k, l, twotheta, inten)) (prof, ints, tts, out) =
     (prof @ [(h, k, l, twotheta, inten)], ints @ [inten], tts @ [twotheta], out)"
| "record_outcome Skipped acc = acc"
| "record_outcome (Printed v) (prof, ints, tts, out) = (prof, ints, tts, out @ [v])"

fun xrd_loop ::
  "form_file \<Rightarrow> string list \<Rightarrow> xrd \<Rightarrow> plane list \<Rightarrow> xrd_acc \<Rightarrow> failure + xrd_acc" where
  "xrd_loop form_lines elements self [] acc = Inr acc"
| "xrd_loop form_lines elements self (hkl # rest) acc =
     (case xrd_plane form_lines elements self hkl of
        Inl e \<Rightarrow> Inl e
      | Inr oc \<Rightarrow> xrd_loop form_lines elements self rest (record_outcome oc acc))"

text \<open>
  \<^verbatim>\<open>get_xrd\<close>. The order in which Python iterates \<^verbatim>\<open>set([atom[0] for atom in atoms])\<close>
  is a parameter \<open>set_iter\<close>, from the list of symbols to the list of the distinct
  symbols in iteration order. The result is the updated object and the numbers
  printed.
\<close>

definition set_iter_ok :: "(string list \<Rightarrow> string list) \<Rightarrow> bool" where
  "set_iter_ok set_iter = (\<forall>xs. distinct (set_iter xs) \<and> set (set_iter xs) = set xs)"

definition get_xrd ::
  "form_file \<Rightarrow> (string list \<Rightarrow> string list) \<Rightarrow> xrd \<Rightarrow> failure + (xrd \<times> real list)" where
  "get_xrd form_lines set_iter self =
     (let elements = set_iter (map fst (atoms self)) in
      case rec_lattice self of (k_1, k_2, k_3) \<Rightarrow>
        (case get_kvec_list self k_1 k_2 k_3 None of
           Inl e \<Rightarrow> Inl e
         | Inr kvec_list \<Rightarrow>
             (case xrd_loop form_lines elements self kvec_list ([], [], [], []) of
                Inl e \<Rightarrow> Inl e
              | Inr (prof, ints, tts, out) \<Rightarrow>
                  Inr (self \<lparr> inten_profile := Some prof,
                              twotheta_list := Some tts,
                              intensity_list := Some ints \<rparr>, out))))"

section \<open>The d-spacing report: \<^verbatim>\<open>get_dspacing\<close>\<close>

text \<open>
  The file \<^verbatim>\<open>d_spacing.out\<close>: its first line and, for each later line, the three
  numbers that \<^verbatim>\<open>str\<close> prints on it.
\<close>

record report =
  firstline :: string
  templines :: "(real \<times> real \<times> real) list"

text \<open>
  \<^verbatim>\<open>np.argsort\<close> is a parameter: numpy's default sort is not stable, so the order of
  equal entries is not fixed. A function is an argsort when it returns a
  permutation of the indices that lists the entries in ascending order.
\<close>

definition argsort_ok :: "(real list \<Rightarrow> nat list) \<Rightarrow> bool" where
  "argsort_ok argsort =
     (\<forall>ys. mset (argsort ys) = mset [0..<length ys] \<and> sorted (map (\<lambda>i. ys ! i) (argsort ys)))"

text \<open>Reading a list at each index of a list, as the loop of lines 238 and 239.\<close>

fun gather :: "'a list \<Rightarrow> nat list \<Rightarrow> failure + 'a list" where
  "gather xs [] = Inr []"
| "gather xs (i # is) =
     (case py_get xs i of
        Inl e \<Rightarrow> Inl e
      | Inr v \<Rightarrow> (case gather xs is of Inl e \<Rightarrow> Inl e | Inr vs \<Rightarrow> Inr (v # vs)))"

text \<open>
  Line 243 on a numpy array. Where the sine is zero numpy divides by zero and
  goes on with \<open>inf\<close>.
\<close>

definition d_spacing :: "real \<Rightarrow> real list \<Rightarrow> failure + real list" where
  "d_spacing wl x_list_sort =
     (if list_ex (\<lambda>x. 2 * sin (x * pi / 360) = 0) x_list_sort then Inl NonFinite
      else Inr (map (\<lambda>x. wl / (2 * sin (x * pi / 360))) x_list_sort))"

text \<open>Lines 254 to 256: one line for each index of \<^verbatim>\<open>x_list_sort\<close>.\<close>

fun write_rows ::
  "real list \<Rightarrow> real list \<Rightarrow> real list \<Rightarrow> nat list \<Rightarrow> failure + (real \<times> real \<times> real) list" where
  "write_rows y_list_sort x_list_sort d_list_sort [] = Inr []"
| "write_rows y_list_sort x_list_sort d_list_sort (i # is) =
     (case py_get y_list_sort i of
        Inl e \<Rightarrow> Inl e
      | Inr y \<Rightarrow>
          (case py_get x_list_sort i of
             Inl e \<Rightarrow> Inl e
           | Inr x \<Rightarrow>
               (case py_get d_list_sort i of
                  Inl e \<Rightarrow> Inl e
                | Inr d \<Rightarrow>
                    (case write_rows y_list_sort x_list_sort d_list_sort is of
                       Inl e \<Rightarrow> Inl e
                     | Inr others \<Rightarrow> Inr ((y, x, d) # others)))))"

text \<open>Lines 235 to 258, from the merged and normalized lists.\<close>

definition dspacing_table ::
  "(real list \<Rightarrow> nat list) \<Rightarrow> real \<Rightarrow> real list \<Rightarrow> real list \<Rightarrow> failure + report" where
  "dspacing_table argsort wl x_list y_list =
     (let y_list_sort = rev (sort y_list);
          y_list_argsort = argsort y_list
      in case gather x_list y_list_argsort of
           Inl e \<Rightarrow> Inl e
         | Inr picked \<Rightarrow>
             (let x_list_sort = rev picked in
              case d_spacing wl x_list_sort of
                Inl e \<Rightarrow> Inl e
              | Inr d_list_sort \<Rightarrow>
                  (case write_rows y_list_sort x_list_sort d_list_sort
                          [0..<length x_list_sort] of
                     Inl e \<Rightarrow> Inl e
                   | Inr lines \<Rightarrow>
                       Inr \<lparr> firstline = ''intensity two_theta d_spacing'',
                             templines = lines \<rparr>)))"

text \<open>
  \<^verbatim>\<open>get_dspacing\<close>. The test \<^verbatim>\<open>if not self.twotheta_list\<close> holds for \<^verbatim>\<open>None\<close> and for
  the empty list. The result is the object, the numbers printed and the file.
\<close>

definition get_dspacing ::
  "form_file \<Rightarrow> (string list \<Rightarrow> string list) \<Rightarrow> (real list \<Rightarrow> nat list) \<Rightarrow> xrd
    \<Rightarrow> failure + (xrd \<times> real list \<times> report)" where
  "get_dspacing form_lines set_iter argsort self =
     (case (if twotheta_list self = None \<or> twotheta_list self = Some []
            then get_xrd form_lines set_iter self else Inr (self, [])) of
        Inl e \<Rightarrow> Inl e
      | Inr (self', out) \<Rightarrow>
          (case twotheta_list self' of
             None \<Rightarrow> Inl TypeError
           | Some x_list \<Rightarrow>
               (case intensity_list self' of
                  None \<Rightarrow> Inl TypeError
                | Some y_list \<Rightarrow>
                    (case sum_intensity x_list y_list tolerance_default of
                       Inl e \<Rightarrow> Inl e
                     | Inr (nx, ny) \<Rightarrow>
                         (case normalize ny max_value_default of
                            Inl e \<Rightarrow> Inl e
                          | Inr zs \<Rightarrow>
                              (case dspacing_table argsort (wavelength self') nx zs of
                                 Inl e \<Rightarrow> Inl e
                               | Inr rep \<Rightarrow> Inr (self', out, rep)))))))"

section \<open>The form factor in the words of the specification\<close>

text \<open>
  Following the spec's words, for comparison with \<open>atom_form\<close>: the 4-Gaussian form
  factor \<open>\<Sum>i=1..4. a_i * exp (- b_i * y\<^sup>2) + c\<close> of the coefficients
  \<open>a1, b1, a2, b2, a3, b3, a4, b4, c\<close>.
\<close>

definition form_factor_spec :: "real list \<Rightarrow> real \<Rightarrow> real" where
  "form_factor_spec p y = (\<Sum>i<4. p ! (2 * i) * exp (- (p ! (2 * i + 1)) * y\<^sup>2)) + p ! 8"

section \<open>Example inputs\<close>

text \<open>
  The cubic cell of edge 1 with two atoms and wavelength 1, as the constructor
  builds it, and a \<^verbatim>\<open>float\<close> that accepts one numeral only.
\<close>

definition unit_cell :: xrd where
  "unit_cell =
     \<lparr> lattice = ((1, 0, 0), (0, 1, 0), (0, 0, 1)),
       rec_lattice = ((2 * pi, 0, 0), (0, 2 * pi, 0), (0, 0, 2 * pi)),
       atoms = [(''Si'', (0, 0, 0)), (''Si'', (1 / 2, 1 / 2, 0))],
       wavelength = 1,
       twotheta_list = None,
       inten_profile = None,
       intensity_list = None \<rparr>"

definition only_decimal :: "string \<Rightarrow> real option" where
  "only_decimal s = (if s = ''1.54'' then Some 1.54 else None)"

text \<open>Two lines of a form-factor table, and the unit cell with wavelength 3.\<close>

definition si_form :: form_file where
  "si_form =
     [(''C'', [2.31, 20.8439, 1.02, 10.2075, 1.5886, 0.5687, 0.865, 51.6512, 0.2156]),
      (''Si'', [6.2915, 2.4386, 3.0353, 32.3337, 1.9891, 0.6785, 1.541, 81.6937, 1.1407])]"

definition long_wave_cell :: xrd where
  "long_wave_cell = unit_cell \<lparr> wavelength := 3 \<rparr>"

text \<open>
  An argsort that keeps equal entries in their order, and the unit cell holding a
  pattern of three reflections.
\<close>

definition stable_argsort :: "real list \<Rightarrow> nat list" where
  "stable_argsort ys = sort_key (\<lambda>i. ys ! i) [0..<length ys]"

definition cached_cell :: xrd where
  "cached_cell =
     unit_cell \<lparr> twotheta_list := Some [60, 120, 60],
                 inten_profile := Some [(1, 0, 0, 60, 1), (1, 1, 1, 120, 2), (0, 1, 0, 60, 4)],
                 intensity_list := Some [1, 2, 4] \<rparr>"

section \<open>Facts about the post-processing\<close>

lemma py_get_in_range: "i < length xs \<Longrightarrow> py_get xs i = Inr (xs ! i)"
  by (simp add: py_get_def)

lemma np_where_nil_iff:
  "np_where (map P xs) = [] \<longleftrightarrow> (\<forall>x\<in>set xs. \<not> P x)"
proof
  assume "np_where (map P xs) = []"
  hence "\<forall>i<length xs. \<not> P (xs ! i)" by (simp add: np_where_def filter_empty_conv)
  thus "\<forall>x\<in>set xs. \<not> P x" by (auto simp: in_set_conv_nth)
next
  assume "\<forall>x\<in>set xs. \<not> P x"
  thus "np_where (map P xs) = []" by (simp add: np_where_def filter_empty_conv)
qed

lemma np_where_first:
  assumes "np_where bs \<noteq> []"
  shows "np_where bs ! 0 < length bs \<and> bs ! (np_where bs ! 0) \<and> (\<forall>i < np_where bs ! 0. \<not> bs ! i)"
proof -
  obtain j js where js: "filter (\<lambda>i. bs ! i) [0..<length bs] = j # js"
    using assms by (cases "np_where bs") (auto simp: np_where_def)
  then obtain us vs where uv: "[0..<length bs] = us @ j # vs" "\<forall>u\<in>set us. \<not> bs ! u" "bs ! j"
    by (auto simp: filter_eq_Cons_iff)
  have "j \<in> set [0..<length bs]" using uv(1) by simp
  hence jl: "j < length bs" by simp
  have sorted: "sorted_wrt (<) (us @ j # vs)" using uv(1) sorted_wrt_upt[of 0 "length bs"] by simp 
  have "\<forall>i<j. i \<in> set us"
  proof (intro allI impI)
    fix i assume "i < j"
    hence "i \<in> set (us @ j # vs)" using jl uv(1)[symmetric] by simp
    moreover have "i \<notin> set (j # vs)" using sorted \<open>i < j\<close> by (auto simp: sorted_wrt_append)
    ultimately show "i \<in> set us" by auto
  qed
  thus ?thesis using js uv jl by (auto simp: np_where_def)
qed

lemma sum_intensity_loop_append:
  "sum_intensity_loop tol ys i (xs @ xs') acc =
     (case sum_intensity_loop tol ys i xs acc of Inl e \<Rightarrow> Inl e
      | Inr acc' \<Rightarrow> sum_intensity_loop tol ys (i + length xs) xs' acc')"
proof (induction xs arbitrary: i acc)
  case Nil
  then show ?case by (cases acc) simp
next
  case (Cons x xs)
  obtain nx ny where acc: "acc = (nx, ny)" by (cases acc)
  show ?case unfolding acc
    by (simp add: Let_def Cons.IH split: sum.splits)
qed

lemma sum_intensity_loop_ys_ext:
  "i + length xs \<le> length ys \<Longrightarrow>
   sum_intensity_loop tol (ys @ zs) i xs acc = sum_intensity_loop tol ys i xs acc"
proof (induction xs arbitrary: i acc)
  case Nil
  then show ?case by (cases acc) simp
next
  case (Cons x xs)
  obtain nx ny where acc: "acc = (nx, ny)" by (cases acc)
  have i: "i < length ys" and i': "Suc i + length xs \<le> length ys" using Cons.prems by simp_all
  have g: "py_get (ys @ zs) i = py_get ys i" using i by (simp add: py_get_def nth_append)
  show ?case unfolding acc using Cons.IH[OF i']
    by (simp add: Let_def g split: sum.splits)
qed

lemma sum_intensity_loop_step:
  assumes len: "length nx = length ny" and i: "i < length ys"
  shows "sum_intensity_loop tol ys i [x] (nx, ny) =
     Inr (if np_where (map (\<lambda>r. \<bar>r - x\<bar> \<le> tol) nx) = [] then (nx @ [x], ny @ [ys ! i])
          else (nx, ny[np_where (map (\<lambda>r. \<bar>r - x\<bar> \<le> tol) nx) ! 0 :=
                   ny ! (np_where (map (\<lambda>r. \<bar>r - x\<bar> \<le> tol) nx) ! 0) + ys ! i]))"
proof (cases "np_where (map (\<lambda>r. \<bar>r - x\<bar> \<le> tol) nx) = []")
  case True
  then show ?thesis using i by (simp add: py_get_def)
next
  case False
  from np_where_first[OF False] have "np_where (map (\<lambda>r. \<bar>r - x\<bar> \<le> tol) nx) ! 0 < length ny"
    using len by simp
  then show ?thesis using False i by (simp add: py_get_def Let_def)
qed

lemma sum_intensity_loop_total:
  "length nx = length ny \<Longrightarrow> i + length xs \<le> length ys \<Longrightarrow>
   \<exists>nx' ny'. sum_intensity_loop tol ys i xs (nx, ny) = Inr (nx', ny') \<and> length nx' = length ny'"
proof (induction xs arbitrary: i nx ny)
  case Nil
  then show ?case by simp
next
  case (Cons x xs)
  have i: "i < length ys" and i': "Suc i + length xs \<le> length ys" using Cons.prems by simp_all
  have "sum_intensity_loop tol ys i (x # xs) (nx, ny) =
        (case sum_intensity_loop tol ys i [x] (nx, ny) of Inl e \<Rightarrow> Inl e
         | Inr acc' \<Rightarrow> sum_intensity_loop tol ys (i + 1) xs acc')"
    using sum_intensity_loop_append[of tol ys i "[x]" xs "(nx, ny)"]
    by (simp del: sum_intensity_loop.simps cong: sum.case_cong)
  moreover obtain mx my where m: "sum_intensity_loop tol ys i [x] (nx, ny) = Inr (mx, my)"
       and ml: "length mx = length my"
    using sum_intensity_loop_step[OF Cons.prems(1) i, of tol x] Cons.prems(1) by (auto split: if_splits)
  ultimately show ?case using Cons.IH[OF ml, of "Suc i"] i' by (simp del: sum_intensity_loop.simps)
qed

lemma sum_intensity_loop_far:
  "sum_intensity_loop tol ys i xs (nx, ny) = Inr (nx', ny') \<Longrightarrow> length nx = length ny \<Longrightarrow>
   sorted_wrt (\<lambda>a b. tol < \<bar>a - b\<bar>) nx \<Longrightarrow>
   sorted_wrt (\<lambda>a b. tol < \<bar>a - b\<bar>) nx' \<and> length nx' = length ny'"
proof (induction xs arbitrary: i nx ny)
  case Nil
  then show ?case by simp
next
  case (Cons x xs)
  let ?ix = "np_where (map (\<lambda>r. \<bar>r - x\<bar> \<le> tol) nx)"
  show ?case
  proof (cases "?ix = []")
    case True
    hence far: "\<forall>r\<in>set nx. tol < \<bar>r - x\<bar>" by (auto simp: np_where_nil_iff)
    from Cons.prems(1) True obtain y where
      "sum_intensity_loop tol ys (Suc i) xs (nx @ [x], ny @ [y]) = Inr (nx', ny')"
      by (auto split: sum.splits)
    from Cons.IH[OF this] Cons.prems(2,3) far show ?thesis by (simp add: sorted_wrt_append)
  next
    case False
    from Cons.prems(1) False obtain v where
      "sum_intensity_loop tol ys (Suc i) xs (nx, ny[?ix ! 0 := v]) = Inr (nx', ny')"
      by (auto simp: Let_def split: sum.splits)
    from Cons.IH[OF this] Cons.prems(2,3) show ?thesis by simp
  qed
qed

lemma sum_intensity_loop_remerge:
  "sorted_wrt (\<lambda>a b. tol < \<bar>a - b\<bar>) (px @ rest) \<Longrightarrow> length nyf = length (px @ rest) \<Longrightarrow>
   sum_intensity_loop tol nyf (length px) rest (px, take (length px) nyf) = Inr (px @ rest, nyf)"
proof (induction rest arbitrary: px)
  case Nil
  then show ?case by simp
next
  case (Cons x rest)
  have far: "\<forall>r\<in>set px. tol < \<bar>r - x\<bar>" using Cons.prems(1) by (auto simp: sorted_wrt_append)
  hence ix: "np_where (map (\<lambda>r. \<bar>r - x\<bar> \<le> tol) px) = []" by (auto simp: np_where_nil_iff)
  have i: "length px < length nyf" using Cons.prems(2) by simp
  have tk: "take (length px) nyf @ [nyf ! length px] = take (length (px @ [x])) nyf"
    using i by (simp add: take_Suc_conv_app_nth)
  have "sum_intensity_loop tol nyf (length (px @ [x])) rest (px @ [x], take (length (px @ [x])) nyf)
        = Inr ((px @ [x]) @ rest, nyf)"
    using Cons.prems by (intro Cons.IH) simp_all
  thus ?case using ix i tk by (simp add: py_get_def)
qed

lemma py_max_Max: "ys \<noteq> [] \<Longrightarrow> py_max ys = Inr (Max (set ys))"
proof -
  have f: "foldl (\<lambda>m v. if m < v then v else m) y zs = Max (set (y # zs))" for y :: real and zs
  proof (induction zs arbitrary: y)
    case Nil show ?case by simp
  next
    case (Cons z zs)
    have "(if y < z then z else y) = max y z" by (simp add: max_def)
    have "Max (set (max y z # zs)) = Max (set (y # z # zs))"
      by (cases "zs = []") (simp_all add: max.assoc)
    thus ?case using Cons.IH[of "if y < z then z else y"] \<open>(if y < z then z else y) = max y z\<close> by simp
  qed
  assume "ys \<noteq> []" thus ?thesis using f by (cases ys) simp_all
qed

section \<open>Claims about the post-processing\<close>

text \<open>
  Claim C4. With the default tolerance, \<^verbatim>\<open>sum_intensity\<close> on parallel lists scans the
  entries in order against the representatives merged so far. Starting from no
  representative, scanning one more entry \<open>(x, y)\<close> after the entries of
  \<open>x_list\<close>, \<open>y_list\<close> either adds \<open>y\<close> to the intensity of the first representative
  \<open>nx ! j\<close> within \<open>1e-5\<close> of \<open>x\<close>, the list of representatives staying as it is,
  or, when every representative is further than \<open>1e-5\<close> from \<open>x\<close>, appends \<open>x\<close> and
  \<open>y\<close> as a new merged peak.
\<close>

theorem sum_intensity_scan:
  assumes len: "length x_list = length y_list"
  shows "sum_intensity [] [] tolerance_default = Inr ([], []) \<and>
    (\<exists>nx ny. sum_intensity x_list y_list tolerance_default = Inr (nx, ny) \<and>
       length ny = length nx \<and>
       ((\<exists>j<length nx. \<bar>nx ! j - x\<bar> \<le> 1 / 100000 \<and> (\<forall>i<j. 1 / 100000 < \<bar>nx ! i - x\<bar>) \<and>
           sum_intensity (x_list @ [x]) (y_list @ [y]) tolerance_default =
             Inr (nx, ny[j := ny ! j + y]))
        \<or> ((\<forall>j<length nx. 1 / 100000 < \<bar>nx ! j - x\<bar>) \<and>
           sum_intensity (x_list @ [x]) (y_list @ [y]) tolerance_default =
             Inr (nx @ [x], ny @ [y]))))"
proof -
  let ?tol = "1 / 100000 :: real"
  obtain nx ny where m: "sum_intensity_loop ?tol y_list 0 x_list ([], []) = Inr (nx, ny)"
    and l: "length nx = length ny"
    using sum_intensity_loop_total[of "[]" "[]" 0 x_list y_list ?tol] len by auto
  have m': "sum_intensity_loop ?tol (y_list @ [y]) 0 x_list ([], []) = Inr (nx, ny)"
    using sum_intensity_loop_ys_ext[of 0 x_list y_list ?tol "[y]" "([], [])"] len m by simp
  let ?ix = "np_where (map (\<lambda>r. \<bar>r - x\<bar> \<le> ?tol) nx)"
  have step: "sum_intensity_loop ?tol (y_list @ [y]) 0 (x_list @ [x]) ([], []) =
      Inr (if ?ix = [] then (nx @ [x], ny @ [y]) else (nx, ny[?ix ! 0 := ny ! (?ix ! 0) + y]))"
    using sum_intensity_loop_step[OF l, of "length x_list" "y_list @ [y]" ?tol x] len
    by (simp add: sum_intensity_loop_append m' del: sum_intensity_loop.simps)
  have second: "(\<exists>j<length nx. \<bar>nx ! j - x\<bar> \<le> ?tol \<and> (\<forall>i<j. ?tol < \<bar>nx ! i - x\<bar>) \<and>
           sum_intensity_loop ?tol (y_list @ [y]) 0 (x_list @ [x]) ([], []) =
             Inr (nx, ny[j := ny ! j + y]))
        \<or> ((\<forall>j<length nx. ?tol < \<bar>nx ! j - x\<bar>) \<and>
           sum_intensity_loop ?tol (y_list @ [y]) 0 (x_list @ [x]) ([], []) =
             Inr (nx @ [x], ny @ [y]))"
  proof (cases "?ix = []")
    case True
    hence "\<forall>r\<in>set nx. ?tol < \<bar>r - x\<bar>" by (auto simp: np_where_nil_iff)
    hence "\<forall>j<length nx. ?tol < \<bar>nx ! j - x\<bar>" by simp
    thus ?thesis using step True by simp
  next
    case False
    from np_where_first[OF False]
    have "?ix ! 0 < length nx" "\<bar>nx ! (?ix ! 0) - x\<bar> \<le> ?tol"
         "\<forall>i < ?ix ! 0. ?tol < \<bar>nx ! i - x\<bar>"
      by (auto simp: not_le)
    thus ?thesis using step False by auto
  qed
  show ?thesis
    unfolding sum_intensity_def tolerance_default_def using m l second by simp
qed

theorem sum_intensity_scan_witness:
  "length [30, 45 :: real] = length [1, 2 :: real] \<and>
   sum_intensity ([30, 45] @ [30]) ([1, 2] @ [4]) tolerance_default = Inr ([30, 45], [5, 2])"
proof -
  have pre: "sum_intensity [30, 45] [1, 2] tolerance_default = Inr ([30, 45], [1, 2])"
    by (simp add: sum_intensity_def tolerance_default_def np_where_def py_get_def)
  have "length [30, 45 :: real] = length [1, 2 :: real]" by simp
  from sum_intensity_scan[OF this, of 30 4] pre
  show ?thesis by (auto simp: nth_Cons' less_Suc_eq split: if_splits)
qed

text \<open>
  Claim C6. Merging the output of a merge again gives that output back: the
  representatives of a merge are pairwise further apart than the tolerance.
\<close>

theorem sum_intensity_idempotent:
  assumes "sum_intensity x_list y_list tolerance_default = Inr (nx, ny)"
  shows "sum_intensity nx ny tolerance_default = Inr (nx, ny)"
proof -
  let ?tol = "tolerance_default"
  from assms have "sum_intensity_loop ?tol y_list 0 x_list ([], []) = Inr (nx, ny)"
    by (simp add: sum_intensity_def)
  from sum_intensity_loop_far[OF this] have far: "sorted_wrt (\<lambda>a b. ?tol < \<bar>a - b\<bar>) nx"
    and l: "length nx = length ny" by simp_all
  from sum_intensity_loop_remerge[of ?tol "[]" nx ny] far l show ?thesis
    by (simp add: sum_intensity_def)
qed

theorem sum_intensity_idempotent_witness:
  "sum_intensity [30, 45, 30] [1, 2, 4] tolerance_default = Inr ([30, 45], [5, 2]) \<and>
   sum_intensity [30, 45] [5, 2] tolerance_default = Inr ([30, 45], [5, 2])"
proof -
  have pre: "sum_intensity [30, 45, 30] [1, 2, 4] tolerance_default = Inr ([30, 45], [5, 2])"
    by (simp add: sum_intensity_def tolerance_default_def np_where_def py_get_def)
  from sum_intensity_idempotent[OF pre] pre show ?thesis by simp
qed

text \<open>
  Claim C5. On a non-empty list whose maximum is positive, \<^verbatim>\<open>normalize\<close> returns a
  list of the same length whose maximum is exactly 100 and whose entries are all
  at most 100.
\<close>

theorem normalize_max_100:
  assumes ne: "y_list \<noteq> []" and pos: "0 < Max (set y_list)"
  shows "\<exists>zs. normalize y_list max_value_default = Inr zs \<and> length zs = length y_list \<and>
           Max (set zs) = 100 \<and> (\<forall>z\<in>set zs. z \<le> 100)"
proof -
  let ?m = "Max (set y_list)"
  let ?zs = "map (\<lambda>y. y / ?m * 100) y_list"
  have n: "normalize y_list max_value_default = Inr ?zs"
    using ne pos by (simp add: normalize_def py_max_Max max_value_default_def)
  have fin: "finite (set ?zs)" "set ?zs \<noteq> {}" using ne by simp_all
  have mem: "?m \<in> set y_list" using ne by (intro Max_in) simp_all
  hence top: "100 \<in> set ?zs" using pos by (auto simp: image_iff intro!: bexI[of _ ?m])
  have le: "z \<le> 100" if "z \<in> set ?zs" for z
  proof -
    from that obtain y where y: "y \<in> set y_list" "z = y / ?m * 100" by auto
    have "y \<le> ?m" using y(1) by simp
    hence "y / ?m \<le> 1" using pos by (simp add: divide_le_eq)
    hence "y / ?m * 100 \<le> 1 * 100" by (intro mult_right_mono) simp_all
    thus ?thesis unfolding y(2) by simp
  qed
  have "Max (set ?zs) = 100"
    using fin top le by (intro Max_eqI) auto
  thus ?thesis using n le by auto
qed

theorem normalize_max_100_witness:
  "[5, 2 :: real] \<noteq> [] \<and> 0 < Max (set [5, 2 :: real]) \<and>
   normalize [5, 2] max_value_default = Inr [100, 40]"
proof -
  have h: "[5, 2 :: real] \<noteq> []" "0 < Max (set [5, 2 :: real])" by simp_all
  from normalize_max_100[OF h] have "\<exists>zs. normalize [5, 2] max_value_default = Inr zs" by blast
  moreover have "normalize [5, 2] max_value_default = Inr [100, 40]"
    by (simp add: normalize_def max_value_default_def)
  ultimately show ?thesis using h by simp
qed

section \<open>Facts about the enumeration of planes\<close>

lemma unit_cell_constructed:
  assumes "pyfloat ''1'' = Some 1"
  shows "XRD_init pyfloat ((1, 0, 0), (0, 1, 0), (0, 0, 1))
           [(''Si'', (0, 0, 0)), (''Si'', (1 / 2, 1 / 2, 0))] ''1'' = Inr unit_cell"
  using assms by (simp add: XRD_init_def isfloat_def unit_cell_def mult.commute)

lemma set_xrange: "set (xrange a b) = {a..b - 1}"
  by (simp add: xrange_def)

lemma sorted_wrt_xrange: "sorted_wrt (<) (xrange a b)"
  by (simp add: xrange_def)

lemma set_product3:
  "set (product3 pool) = {(h, k, l). h \<in> set pool \<and> k \<in> set pool \<and> l \<in> set pool}"
  by (auto simp: product3_def)

lemma sorted_wrt_concat_map:
  assumes "sorted_wrt R xs"
    and "\<And>x. x \<in> set xs \<Longrightarrow> sorted_wrt Q (f x)"
    and "\<And>x x' a b. R x x' \<Longrightarrow> a \<in> set (f x) \<Longrightarrow> b \<in> set (f x') \<Longrightarrow> Q a b"
  shows "sorted_wrt Q (concat (map f xs))"
  using assms by (induction xs) (auto simp: sorted_wrt_append)

lemma sorted_wrt_product3:
  assumes "sorted_wrt (<) pool"
  shows "sorted_wrt (\<lambda>(h, k, l) (h', k', l').
            h < h' \<or> (h = h' \<and> (k < k' \<or> (k = k' \<and> l < l')))) (product3 pool)"
  unfolding product3_def
proof (rule sorted_wrt_concat_map[OF assms], goal_cases)
  case (1 h)
  show ?case
  proof (rule sorted_wrt_concat_map[OF assms], goal_cases)
    case (1 k)
    show ?case using assms by (simp add: sorted_wrt_map)
  next
    case (2 k k' a b)
    then show ?case by auto
  qed
next
  case (2 h h' a b)
  then show ?case by auto
qed

lemma sin_twotheta_eq:
  "sin_twotheta wl k_1 k_2 k_3 (h, k, l) =
   wl * norm3 (add3 (add3 (scale3 (real_of_int h) k_1) (scale3 (real_of_int k) k_2))
                    (scale3 (real_of_int l) k_3)) / (4 * pi)"
  by (simp add: Let_def)

lemma sqrt_4_pi_pi: "sqrt (4 * (pi * pi)) = 2 * pi"
proof -
  have "sqrt (4 * (pi * pi)) = sqrt ((2 * pi) * (2 * pi))" by simp
  also have "\<dots> = \<bar>2 * pi\<bar>" by (rule real_sqrt_abs2)
  finally show ?thesis by simp
qed

lemma axis_index_eq:
  "wl \<noteq> 0 \<Longrightarrow> norm3 k \<noteq> 0 \<Longrightarrow> axis_index wl k = Inr \<lceil>4 * pi / (wl * norm3 k)\<rceil>"
  by (simp add: axis_index_def field_simps)

section \<open>Claims about the enumeration of planes and the constructor\<close>

text \<open>
  Claim C2. Whatever the lattice vectors and the wavelength, with \<open>b\<close> the value of
  \<^verbatim>\<open>max_index\<close> when the loop of line 95 starts, \<^verbatim>\<open>get_kvec_list\<close> returns exactly the
  triples \<open>(h, k, l)\<close> of the cube from \<open>-b\<close> to \<open>b\<close> with
  \<open>-1 \<le> wavelength * |h k_1 + k k_2 + l k_3| / (4 pi) \<le> 1\<close>, each once, in the
  order in which \<open>h\<close> runs slowest and \<open>l\<close> fastest, each ascending.
\<close>

theorem get_kvec_list_cube:
  assumes "kvec_bound self k_1 k_2 k_3 max_index = Inr b"
  shows "\<exists>ks. get_kvec_list self k_1 k_2 k_3 max_index = Inr ks \<and>
     set ks = {(h, k, l). - b \<le> h \<and> h \<le> b \<and> - b \<le> k \<and> k \<le> b \<and> - b \<le> l \<and> l \<le> b \<and>
        - 1 \<le> wavelength self *
                 norm3 (add3 (add3 (scale3 (real_of_int h) k_1) (scale3 (real_of_int k) k_2))
                             (scale3 (real_of_int l) k_3)) / (4 * pi) \<and>
        wavelength self *
                 norm3 (add3 (add3 (scale3 (real_of_int h) k_1) (scale3 (real_of_int k) k_2))
                             (scale3 (real_of_int l) k_3)) / (4 * pi) \<le> 1} \<and>
     sorted_wrt (\<lambda>(h, k, l) (h', k', l').
            h < h' \<or> (h = h' \<and> (k < k' \<or> (k = k' \<and> l < l')))) ks"
proof -
  let ?P = "\<lambda>hkl. -1 \<le> sin_twotheta (wavelength self) k_1 k_2 k_3 hkl
                     \<and> sin_twotheta (wavelength self) k_1 k_2 k_3 hkl \<le> 1"
  let ?ks = "filter ?P (product3 (xrange (- b) (b + 1)))"
  have g: "get_kvec_list self k_1 k_2 k_3 max_index = Inr ?ks"
    using assms by (simp add: get_kvec_list_def)
  have s: "sorted_wrt (\<lambda>(h, k, l) (h', k', l').
            h < h' \<or> (h = h' \<and> (k < k' \<or> (k = k' \<and> l < l')))) ?ks"
    by (intro sorted_wrt_filter sorted_wrt_product3 sorted_wrt_xrange)
  have "set ?ks = {(h, k, l). - b \<le> h \<and> h \<le> b \<and> - b \<le> k \<and> k \<le> b \<and> - b \<le> l \<and> l \<le> b \<and>
        ?P (h, k, l)}"
    by (auto simp: set_product3 set_xrange simp del: sin_twotheta.simps)
  hence "set ?ks = {(h, k, l). - b \<le> h \<and> h \<le> b \<and> - b \<le> k \<and> k \<le> b \<and> - b \<le> l \<and> l \<le> b \<and>
        - 1 \<le> wavelength self *
                 norm3 (add3 (add3 (scale3 (real_of_int h) k_1) (scale3 (real_of_int k) k_2))
                             (scale3 (real_of_int l) k_3)) / (4 * pi) \<and>
        wavelength self *
                 norm3 (add3 (add3 (scale3 (real_of_int h) k_1) (scale3 (real_of_int k) k_2))
                             (scale3 (real_of_int l) k_3)) / (4 * pi) \<le> 1}"
    unfolding sin_twotheta_eq .
  thus ?thesis using g s by blast
qed

theorem get_kvec_list_cube_witness:
  "kvec_bound unit_cell (2 * pi, 0, 0) (0, 2 * pi, 0) (0, 0, 2 * pi) (Some 1) = Inr 1 \<and>
   (\<exists>ks. get_kvec_list unit_cell (2 * pi, 0, 0) (0, 2 * pi, 0) (0, 0, 2 * pi) (Some 1) = Inr ks \<and>
         (0, 0, 1) \<in> set ks \<and> (2, 0, 0) \<notin> set ks)"
proof -
  have b: "kvec_bound unit_cell (2 * pi, 0, 0) (0, 2 * pi, 0) (0, 0, 2 * pi) (Some 1) = Inr 1"
    by (simp add: kvec_bound_def)
  have w: "wavelength unit_cell = 1" by (simp add: unit_cell_def)
  from get_kvec_list_cube[OF b] show ?thesis
    using b by (auto simp: w sqrt_4_pi_pi)
qed

text \<open>
  Claim C3, amended. With no bound supplied, a wavelength other than zero and
  reciprocal vectors other than zero, the bound is the minimum of 5 and of the
  greatest of \<open>ceil (4 pi / (wavelength * |k_i|))\<close> over the three axes. A supplied bound
  other than zero is used as it is, with no derivation (so also for a zero
  wavelength), and the enumeration runs over its cube.
\<close>

theorem kvec_bound_rule:
  "(wavelength self \<noteq> 0 \<and> norm3 k_1 \<noteq> 0 \<and> norm3 k_2 \<noteq> 0 \<and> norm3 k_3 \<noteq> 0 \<longrightarrow>
      kvec_bound self k_1 k_2 k_3 None =
        Inr (min 5 (Max {\<lceil>4 * pi / (wavelength self * norm3 k_1)\<rceil>,
                         \<lceil>4 * pi / (wavelength self * norm3 k_2)\<rceil>,
                         \<lceil>4 * pi / (wavelength self * norm3 k_3)\<rceil>}))) \<and>
   (b \<noteq> 0 \<longrightarrow>
      kvec_bound self k_1 k_2 k_3 (Some b) = Inr b \<and>
      get_kvec_list self k_1 k_2 k_3 (Some b) =
        Inr (filter (\<lambda>hkl. - 1 \<le> sin_twotheta (wavelength self) k_1 k_2 k_3 hkl \<and>
                            sin_twotheta (wavelength self) k_1 k_2 k_3 hkl \<le> 1)
               (product3 (xrange (- b) (b + 1)))))"
proof (intro conjI impI)
  assume "wavelength self \<noteq> 0 \<and> norm3 k_1 \<noteq> 0 \<and> norm3 k_2 \<noteq> 0 \<and> norm3 k_3 \<noteq> 0"
  thus "kvec_bound self k_1 k_2 k_3 None =
        Inr (min 5 (Max {\<lceil>4 * pi / (wavelength self * norm3 k_1)\<rceil>,
                         \<lceil>4 * pi / (wavelength self * norm3 k_2)\<rceil>,
                         \<lceil>4 * pi / (wavelength self * norm3 k_3)\<rceil>}))"
    by (simp add: kvec_bound_def axis_index_eq MAX_INDEX_def max.assoc)
next
  assume "b \<noteq> 0"
  thus "kvec_bound self k_1 k_2 k_3 (Some b) = Inr b" by (simp add: kvec_bound_def)
next
  assume "b \<noteq> 0"
  thus "get_kvec_list self k_1 k_2 k_3 (Some b) =
        Inr (filter (\<lambda>hkl. - 1 \<le> sin_twotheta (wavelength self) k_1 k_2 k_3 hkl \<and>
                            sin_twotheta (wavelength self) k_1 k_2 k_3 hkl \<le> 1)
               (product3 (xrange (- b) (b + 1))))"
    by (simp add: get_kvec_list_def kvec_bound_def)
qed

theorem kvec_bound_rule_witness:
  "kvec_bound unit_cell (2 * pi, 0, 0) (0, 2 * pi, 0) (0, 0, 2 * pi) None = Inr 2 \<and>
   kvec_bound unit_cell (2 * pi, 0, 0) (0, 2 * pi, 0) (0, 0, 2 * pi) (Some 3) = Inr 3"
  using kvec_bound_rule[of unit_cell "(2 * pi, 0, 0)" "(0, 2 * pi, 0)" "(0, 0, 2 * pi)" 3]
  by (simp add: unit_cell_def sqrt_4_pi_pi)

text \<open>
  Claim C3 as stated fails for the supplied value 0: the test \<^verbatim>\<open>if not max_index\<close>
  takes it for a missing bound and the bound is derived, here 2.
\<close>

theorem kvec_bound_zero_counterexample:
  "kvec_bound unit_cell (2 * pi, 0, 0) (0, 2 * pi, 0) (0, 0, 2 * pi) (Some 0) = Inr 2 \<and>
   kvec_bound unit_cell (2 * pi, 0, 0) (0, 2 * pi, 0) (0, 0, 2 * pi) (Some 0) \<noteq> Inr 0"
  by (simp add: kvec_bound_def axis_index_def unit_cell_def MAX_INDEX_def sqrt_4_pi_pi)

text \<open>
  Claim C9. For an invertible lattice matrix, a specifier that \<^verbatim>\<open>float\<close> accepts gives
  a model whose wavelength is that number; a specifier that \<^verbatim>\<open>float\<close> rejects is
  looked up in the table of the five anodes, and a name that is not in the table
  makes the constructor raise \<^verbatim>\<open>KeyError\<close>: no model exists to compute with.
\<close>

theorem XRD_init_wavelength:
  assumes "det3 lat \<noteq> 0"
  shows "(pyfloat wl_spec = Some r \<longrightarrow>
            (\<exists>m. XRD_init pyfloat lat ats wl_spec = Inr m \<and> wavelength m = r)) \<and>
         (pyfloat wl_spec = None \<and> map_of xray_wavelength wl_spec = Some w \<longrightarrow>
            (\<exists>m. XRD_init pyfloat lat ats wl_spec = Inr m \<and> wavelength m = w)) \<and>
         (pyfloat wl_spec = None \<and> map_of xray_wavelength wl_spec = None \<longrightarrow>
            XRD_init pyfloat lat ats wl_spec = Inl KeyError) \<and>
         map_of xray_wavelength =
           [''CuKa1'' \<mapsto> 1.5405981, ''CuKa2'' \<mapsto> 1.54443, ''CuKb1'' \<mapsto> 1.39225,
            ''WLa1'' \<mapsto> 1.47642, ''WLa2'' \<mapsto> 1.48748]"
proof -
  obtain inv_lat where i: "inv3 lat = Inr inv_lat"
    using assms by (cases lat rule: inv3.cases) (auto simp: Let_def)
  have tbl: "map_of xray_wavelength =
           [''CuKa1'' \<mapsto> 1.5405981, ''CuKa2'' \<mapsto> 1.54443, ''CuKb1'' \<mapsto> 1.39225,
            ''WLa1'' \<mapsto> 1.47642, ''WLa2'' \<mapsto> 1.48748]"
    by (rule ext) (simp add: xray_wavelength_def)
  show ?thesis
    apply (intro conjI impI)
       apply (simp add: XRD_init_def i isfloat_def)
      apply (simp add: XRD_init_def i isfloat_def get_wavelength_def)
     apply (simp add: XRD_init_def i isfloat_def get_wavelength_def)
    apply (rule tbl)
    done
qed

theorem XRD_init_wavelength_witness:
  "det3 ((1, 0, 0), (0, 1, 0), (0, 0, 1)) \<noteq> 0 \<and>
   (\<exists>m. XRD_init only_decimal ((1, 0, 0), (0, 1, 0), (0, 0, 1)) [] ''1.54'' = Inr m \<and>
        wavelength m = 1.54) \<and>
   (\<exists>m. XRD_init only_decimal ((1, 0, 0), (0, 1, 0), (0, 0, 1)) [] ''CuKa1'' = Inr m \<and>
        wavelength m = 1.5405981) \<and>
   XRD_init only_decimal ((1, 0, 0), (0, 1, 0), (0, 0, 1)) [] ''MoKa'' = Inl KeyError"
proof -
  have d: "det3 ((1, 0, 0), (0, 1, 0), (0, 0, 1)) \<noteq> 0" by simp
  have 1: "only_decimal ''1.54'' = Some 1.54" by (simp add: only_decimal_def)
  have 2: "only_decimal ''CuKa1'' = None \<and> map_of xray_wavelength ''CuKa1'' = Some 1.5405981"
    by (simp add: only_decimal_def xray_wavelength_def)
  have 3: "only_decimal ''MoKa'' = None \<and> map_of xray_wavelength ''MoKa'' = None"
    by (simp add: only_decimal_def xray_wavelength_def)
  from XRD_init_wavelength[OF d, where pyfloat = only_decimal and wl_spec = "''1.54''" and r = "1.54" and ats = "[]"] 1
  have a: "\<exists>m. XRD_init only_decimal ((1, 0, 0), (0, 1, 0), (0, 0, 1)) [] ''1.54'' = Inr m \<and>
        wavelength m = 1.54" by blast
  from XRD_init_wavelength[OF d, where pyfloat = only_decimal and wl_spec = "''CuKa1''" and w = "1.5405981" and ats = "[]"] 2
  have b: "\<exists>m. XRD_init only_decimal ((1, 0, 0), (0, 1, 0), (0, 0, 1)) [] ''CuKa1'' = Inr m \<and>
        wavelength m = 1.5405981" by blast
  from XRD_init_wavelength[OF d, where pyfloat = only_decimal and wl_spec = "''MoKa''" and ats = "[]"] 3
  have c: "XRD_init only_decimal ((1, 0, 0), (0, 1, 0), (0, 0, 1)) [] ''MoKa'' = Inl KeyError"
    by blast
  show ?thesis using d a b c by blast
qed

section \<open>Facts about the computation of the pattern\<close>

lemma atom_form_spec:
  "9 \<le> length p \<Longrightarrow> atom_form (Some p) y = Inr (form_factor_spec p y)"
  by (simp add: atom_form_def form_factor_spec_def lessThan_nat_numeral lessThan_Suc
      numeral_eq_Suc)

lemma atom_form_Inr:
  "atom_form a y = Inr f \<Longrightarrow> \<exists>p. a = Some p \<and> 9 \<le> length p \<and> f = form_factor_spec p y"
  using atom_form_spec by (auto simp: atom_form_def split: option.splits if_splits)

lemma sum_list_filter_disj:
  fixes g :: "'a \<Rightarrow> complex"
  assumes "\<And>a. \<not> (P a \<and> Q a)"
  shows "sum_list (map g (filter (\<lambda>a. P a \<or> Q a) xs)) =
         sum_list (map g (filter P xs)) + sum_list (map g (filter Q xs))"
  using assms by (induction xs) auto

lemma s_factor_loop_total:
  "\<forall>e\<in>set es. \<exists>p. get_atom_form tbl e = Some p \<and> 9 \<le> length p \<Longrightarrow>
   \<exists>sfl. s_factor_loop tbl ats hkl y es = Inr sfl"
proof (induction es)
  case Nil
  then show ?case by simp
next
  case (Cons e es)
  then obtain p where p: "get_atom_form tbl e = Some p" "9 \<le> length p" by auto
  from Cons obtain sfl where "s_factor_loop tbl ats hkl y es = Inr sfl" by auto
  then show ?case using p by (simp add: atom_form_spec)
qed

lemma s_factor_loop_forms:
  "s_factor_loop tbl ats hkl y es = Inr sfl \<Longrightarrow>
   \<forall>e\<in>set es. \<exists>p. get_atom_form tbl e = Some p \<and> 9 \<le> length p"
proof (induction es arbitrary: sfl)
  case Nil
  then show ?case by simp
next
  case (Cons e es)
  from Cons.prems obtain f rest where f: "atom_form (get_atom_form tbl e) y = Inr f"
    and r: "s_factor_loop tbl ats hkl y es = Inr rest"
    by (auto split: sum.splits)
  from atom_form_Inr[OF f] Cons.IH[OF r] show ?case by auto
qed

lemma s_factor_loop_sum:
  "s_factor_loop tbl ats hkl y es = Inr sfl \<Longrightarrow> distinct es \<Longrightarrow>
   sum_list sfl =
     (\<Sum>a\<leftarrow>filter (\<lambda>a. fst a \<in> set es) ats.
        s_factor (form_factor_spec (the (get_atom_form tbl (fst a))) y) a hkl)"
proof (induction es arbitrary: sfl)
  case Nil
  then show ?case by simp
next
  case (Cons e es)
  let ?g = "\<lambda>a. s_factor (form_factor_spec (the (get_atom_form tbl (fst a))) y) a hkl"
  from Cons.prems obtain f rest where f: "atom_form (get_atom_form tbl e) y = Inr f"
    and r: "s_factor_loop tbl ats hkl y es = Inr rest"
    and sfl: "sfl = map (\<lambda>a. s_factor f a hkl) (filter (\<lambda>a. fst a = e) ats) @ rest"
    by (auto split: sum.splits)
  from atom_form_Inr[OF f] obtain p where p: "get_atom_form tbl e = Some p"
    "f = form_factor_spec p y" by auto
  have here: "map (\<lambda>a. s_factor f a hkl) (filter (\<lambda>a. fst a = e) ats) =
              map ?g (filter (\<lambda>a. fst a = e) ats)"
    using p by (intro map_cong) auto
  have rest: "sum_list rest = sum_list (map ?g (filter (\<lambda>a. fst a \<in> set es) ats))"
    using Cons.IH[OF r] Cons.prems(2) by simp
  have "filter (\<lambda>a. fst a \<in> set (e # es)) ats = filter (\<lambda>a. fst a = e \<or> fst a \<in> set es) ats"
    by (intro filter_cong) auto
  moreover have "sum_list (map ?g (filter (\<lambda>a. fst a = e \<or> fst a \<in> set es) ats)) =
      sum_list (map ?g (filter (\<lambda>a. fst a = e) ats)) +
      sum_list (map ?g (filter (\<lambda>a. fst a \<in> set es) ats))"
    using Cons.prems(2) by (intro sum_list_filter_disj) auto
  ultimately show ?case using sfl here rest by simp
qed

lemma s_factor_loop_all_atoms:
  assumes "s_factor_loop tbl ats hkl y es = Inr sfl" "distinct es" "set es = set (map fst ats)"
  shows "sum_list sfl =
     (\<Sum>a\<leftarrow>ats. s_factor (form_factor_spec (the (get_atom_form tbl (fst a))) y) a hkl)"
proof -
  have "filter (\<lambda>a. fst a \<in> set es) ats = ats" using assms(3) by (auto simp: filter_id_conv)
  thus ?thesis using s_factor_loop_sum[OF assms(1,2)] by simp
qed

lemma xrd_loop_append:
  "xrd_loop tbl es self (ks @ ks') acc =
     (case xrd_loop tbl es self ks acc of Inl e \<Rightarrow> Inl e
      | Inr acc' \<Rightarrow> xrd_loop tbl es self ks' acc')"
  by (induction ks arbitrary: acc) (auto simp del: xrd_plane.simps split: sum.splits)

lemma xrd_loop_skipped:
  "\<forall>hkl\<in>set ks. xrd_plane tbl es self hkl = Inr Skipped \<Longrightarrow> xrd_loop tbl es self ks acc = Inr acc"
  by (induction ks arbitrary: acc) (auto simp del: xrd_plane.simps)

lemma fst_record_outcome:
  "fst (record_outcome oc acc) = (case oc of Reflection r \<Rightarrow> fst acc @ [r] | _ \<Rightarrow> fst acc)"
  by (cases "(oc, acc)" rule: record_outcome.cases) auto

lemma xrd_loop_profile:
  "xrd_loop tbl es self ks acc = Inr acc' \<Longrightarrow>
   set (fst acc') = set (fst acc) \<union> {r. \<exists>hkl\<in>set ks. xrd_plane tbl es self hkl = Inr (Reflection r)}"
proof (induction ks arbitrary: acc)
  case Nil
  then show ?case by simp
next
  case (Cons hkl ks)
  from Cons.prems obtain oc where oc: "xrd_plane tbl es self hkl = Inr oc"
    and r: "xrd_loop tbl es self ks (record_outcome oc acc) = Inr acc'"
    by (auto split: sum.splits)
  show ?case unfolding Cons.IH[OF r] fst_record_outcome using oc
    by (cases oc) auto
qed

lemma xrd_loop_total:
  "\<forall>hkl\<in>set ks. \<exists>oc. xrd_plane tbl es self hkl = Inr oc \<Longrightarrow>
   \<exists>acc'. xrd_loop tbl es self ks acc = Inr acc'"
proof (induction ks arbitrary: acc)
  case Nil
  show ?case by (intro exI[of _ acc]) simp
next
  case (Cons hkl ks)
  then obtain oc where oc: "xrd_plane tbl es self hkl = Inr oc" by auto
  from Cons obtain acc' where "xrd_loop tbl es self ks (record_outcome oc acc) = Inr acc'"
    by fastforce
  then show ?case using oc by (intro exI[of _ acc']) simp
qed

lemma xrd_plane_Reflection:
  assumes "xrd_plane tbl es self (h, k, l) = Inr (Reflection r)"
  shows "\<exists>sfl. s_factor_loop tbl (atoms self) (h, k, l)
               (norm3 (vecmat (plane_vec (h, k, l)) (rec_lattice self)) / 4 / pi) es = Inr sfl \<and>
          r = (h, k, l,
               2 * 180 / pi * arcsin (wavelength self *
                   (norm3 (vecmat (plane_vec (h, k, l)) (rec_lattice self)) / 4 / pi)),
               (cmod (sum_list sfl))\<^sup>2 *
               ((1 + (cos (arcsin (wavelength self *
                   (norm3 (vecmat (plane_vec (h, k, l)) (rec_lattice self)) / 4 / pi)) * 2))\<^sup>2) /
                (8 * (sin (arcsin (wavelength self *
                   (norm3 (vecmat (plane_vec (h, k, l)) (rec_lattice self)) / 4 / pi))))\<^sup>2 *
                 cos (arcsin (wavelength self *
                   (norm3 (vecmat (plane_vec (h, k, l)) (rec_lattice self)) / 4 / pi))))))"
  using assms by (auto simp: Let_def split: sum.splits if_splits)

lemma vecmat_rows:
  "vecmat (plane_vec (h, k, l)) (k_1, k_2, k_3) =
   add3 (add3 (scale3 (real_of_int h) k_1) (scale3 (real_of_int k) k_2)) (scale3 (real_of_int l) k_3)"
  by (cases k_1; cases k_2; cases k_3) simp

lemma get_xrd_Inr:
  assumes "get_xrd tbl si self = Inr (self', out)" "rec_lattice self = (k_1, k_2, k_3)"
  shows "\<exists>ks prof ints tts. get_kvec_list self k_1 k_2 k_3 None = Inr ks \<and>
     xrd_loop tbl (si (map fst (atoms self))) self ks ([], [], [], []) = Inr (prof, ints, tts, out) \<and>
     self' = self \<lparr> inten_profile := Some prof, twotheta_list := Some tts,
                     intensity_list := Some ints \<rparr>"
  using assms by (auto simp: get_xrd_def Let_def split: sum.splits prod.splits)

lemma xrd_plane_range:
  assumes "xrd_plane tbl es self (h, k, l) = Inr (Reflection r)"
  shows "- 1 \<le> wavelength self * (norm3 (vecmat (plane_vec (h, k, l)) (rec_lattice self)) / 4 / pi) \<and>
         wavelength self * (norm3 (vecmat (plane_vec (h, k, l)) (rec_lattice self)) / 4 / pi) \<le> 1 \<and>
         arcsin (wavelength self * (norm3 (vecmat (plane_vec (h, k, l)) (rec_lattice self)) / 4 / pi)) \<noteq> 0 \<and>
         arcsin (wavelength self * (norm3 (vecmat (plane_vec (h, k, l)) (rec_lattice self)) / 4 / pi)) \<noteq> pi / 2"
  using assms by (auto simp: Let_def split: sum.splits if_splits)

lemma norm3_nonneg: "0 \<le> norm3 v"
  by (cases v) simp

lemma xrd_plane_degenerate:
  assumes forms: "\<forall>e\<in>set es. \<exists>p. get_atom_form tbl e = Some p \<and> 9 \<le> length p"
    and range: "- 1 \<le> wavelength self * (norm3 (vecmat (plane_vec (h, k, l)) (rec_lattice self)) / 4 / pi)"
               "wavelength self * (norm3 (vecmat (plane_vec (h, k, l)) (rec_lattice self)) / 4 / pi) \<le> 1"
    and deg: "arcsin (wavelength self * (norm3 (vecmat (plane_vec (h, k, l)) (rec_lattice self)) / 4 / pi)) = 0 \<or>
              arcsin (wavelength self * (norm3 (vecmat (plane_vec (h, k, l)) (rec_lattice self)) / 4 / pi)) = pi / 2"
  shows "xrd_plane tbl es self (h, k, l) = Inr Skipped"
proof -
  obtain sfl where "s_factor_loop tbl (atoms self) (h, k, l)
      (norm3 (vecmat (plane_vec (h, k, l)) (rec_lattice self)) / 4 / pi) es = Inr sfl"
    using s_factor_loop_total[OF forms] by blast
  thus ?thesis using range deg unfolding xrd_plane.simps Let_def by auto
qed

lemma xrd_plane_total:
  assumes forms: "\<forall>e\<in>set es. \<exists>p. get_atom_form tbl e = Some p \<and> 9 \<le> length p"
    and pos: "0 < wavelength self"
  shows "\<exists>oc. xrd_plane tbl es self hkl = Inr oc"
proof -
  obtain h k l where hkl: "hkl = (h, k, l)" by (cases hkl)
  let ?x = "wavelength self * (norm3 (vecmat (plane_vec (h, k, l)) (rec_lattice self)) / 4 / pi)"
  obtain sfl where sfl: "s_factor_loop tbl (atoms self) (h, k, l)
      (norm3 (vecmat (plane_vec (h, k, l)) (rec_lattice self)) / 4 / pi) es = Inr sfl"
    using s_factor_loop_total[OF forms] by blast
  have x0: "0 \<le> ?x" using pos norm3_nonneg by simp
  show ?thesis
  proof (cases "?x \<le> 1")
    case False
    thus ?thesis unfolding hkl xrd_plane.simps Let_def using sfl by auto
  next
    case True
    show ?thesis
    proof (cases "arcsin ?x = pi / 2 \<or> arcsin ?x = 0")
      case True
      thus ?thesis unfolding hkl xrd_plane.simps Let_def using sfl by auto
    next
      case False
      have "0 \<le> arcsin ?x" using x0 True by (intro arcsin_nonneg) simp
      moreover have "arcsin ?x \<le> pi / 2" using x0 True by (intro arcsin_ubound) simp_all
      ultimately have "0 < arcsin ?x" "arcsin ?x < pi / 2" using False by simp_all
      hence "0 < sin (arcsin ?x)" "0 < cos (arcsin ?x)"
        by (simp_all add: sin_gt_zero2 cos_gt_zero)
      hence "8 * (sin (arcsin ?x))\<^sup>2 * cos (arcsin ?x) \<noteq> 0" by simp
      thus ?thesis unfolding hkl xrd_plane.simps Let_def using sfl False by auto
    qed
  qed
qed

lemma get_kvec_list_filter:
  "kvec_bound self k_1 k_2 k_3 max_index = Inr b \<Longrightarrow>
   get_kvec_list self k_1 k_2 k_3 max_index =
     Inr (filter (\<lambda>hkl. - 1 \<le> sin_twotheta (wavelength self) k_1 k_2 k_3 hkl \<and>
                         sin_twotheta (wavelength self) k_1 k_2 k_3 hkl \<le> 1)
            (product3 (xrange (- b) (b + 1))))"
  by (simp add: get_kvec_list_def)

lemma kvec_bound_None_total:
  "wavelength self \<noteq> 0 \<Longrightarrow> norm3 k_1 \<noteq> 0 \<Longrightarrow> norm3 k_2 \<noteq> 0 \<Longrightarrow> norm3 k_3 \<noteq> 0 \<Longrightarrow>
   \<exists>b. kvec_bound self k_1 k_2 k_3 None = Inr b"
  by (simp add: kvec_bound_def axis_index_def)

lemma bragg_axis:
  "wl * norm3 (add3 (add3 (scale3 (real_of_int 1) k_1) (scale3 (real_of_int 0) k_2))
                    (scale3 (real_of_int 0) k_3)) / (4 * pi) = wl * norm3 k_1 / (4 * pi)"
  "wl * norm3 (add3 (add3 (scale3 (real_of_int 0) k_1) (scale3 (real_of_int 1) k_2))
                    (scale3 (real_of_int 0) k_3)) / (4 * pi) = wl * norm3 k_2 / (4 * pi)"
  "wl * norm3 (add3 (add3 (scale3 (real_of_int 0) k_1) (scale3 (real_of_int 0) k_2))
                    (scale3 (real_of_int 1) k_3)) / (4 * pi) = wl * norm3 k_3 / (4 * pi)"
  by (cases k_1; cases k_2; cases k_3; simp)+

lemma set_iter_ok_remdups: "set_iter_ok remdups"
  by (simp add: set_iter_ok_def)

lemma unit_cell_fields:
  "rec_lattice unit_cell = ((2 * pi, 0, 0), (0, 2 * pi, 0), (0, 0, 2 * pi))"
  "wavelength unit_cell = 1"
  "atoms unit_cell = [(''Si'', (0, 0, 0)), (''Si'', (1 / 2, 1 / 2, 0))]"
  by (simp_all add: unit_cell_def)

lemma long_wave_cell_fields:
  "rec_lattice long_wave_cell = ((2 * pi, 0, 0), (0, 2 * pi, 0), (0, 0, 2 * pi))"
  "wavelength long_wave_cell = 3"
  "atoms long_wave_cell = [(''Si'', (0, 0, 0)), (''Si'', (1 / 2, 1 / 2, 0))]"
  by (simp_all add: long_wave_cell_def unit_cell_def)

lemma si_form_Si:
  "get_atom_form si_form ''Si'' =
     Some [6.2915, 2.4386, 3.0353, 32.3337, 1.9891, 0.6785, 1.541, 81.6937, 1.1407]"
  by (simp add: get_atom_form_def si_form_def)

lemma get_xrd_total:
  assumes ok: "set_iter_ok set_iter"
    and forms: "\<forall>atom\<in>set (atoms self). \<exists>p. get_atom_form form_lines (fst atom) = Some p \<and> 9 \<le> length p"
    and pos: "0 < wavelength self"
    and rec: "rec_lattice self = (k_1, k_2, k_3)"
    and nz: "norm3 k_1 \<noteq> 0" "norm3 k_2 \<noteq> 0" "norm3 k_3 \<noteq> 0"
  shows "\<exists>self' out. get_xrd form_lines set_iter self = Inr (self', out)"
proof -
  let ?es = "set_iter (map fst (atoms self))"
  have f: "\<forall>e\<in>set ?es. \<exists>p. get_atom_form form_lines e = Some p \<and> 9 \<le> length p"
    using forms ok unfolding set_iter_ok_def by auto
  obtain b where b: "kvec_bound self k_1 k_2 k_3 None = Inr b"
    using kvec_bound_None_total[OF _ nz, of self] pos by auto
  note ks = get_kvec_list_filter[OF b]
  have "\<forall>hkl. \<exists>oc. xrd_plane form_lines ?es self hkl = Inr oc"
    using xrd_plane_total[OF f pos] by blast
  hence "\<exists>acc'. xrd_loop form_lines ?es self
           (filter (\<lambda>hkl. - 1 \<le> sin_twotheta (wavelength self) k_1 k_2 k_3 hkl \<and>
                         sin_twotheta (wavelength self) k_1 k_2 k_3 hkl \<le> 1)
            (product3 (xrange (- b) (b + 1)))) ([], [], [], []) = Inr acc'"
    by (intro xrd_loop_total) blast
  then obtain prof ints tts out where
    "xrd_loop form_lines ?es self
           (filter (\<lambda>hkl. - 1 \<le> sin_twotheta (wavelength self) k_1 k_2 k_3 hkl \<and>
                         sin_twotheta (wavelength self) k_1 k_2 k_3 hkl \<le> 1)
            (product3 (xrange (- b) (b + 1)))) ([], [], [], []) = Inr (prof, ints, tts, out)"
    by (metis prod_cases4)
  thus ?thesis using ks rec by (simp add: get_xrd_def Let_def)
qed

section \<open>Claims about the computation of the pattern\<close>

text \<open>
  Claim C1. Every record \<open>(h, k, l, twotheta, inten)\<close> of the pattern that \<^verbatim>\<open>get_xrd\<close>
  stores has \<open>inten = |F|\<^sup>2 * LP\<close> and \<open>twotheta = 2 * theta * 180 / pi\<close>, where
  \<open>y = |h k_1 + k k_2 + l k_3| / (4 pi)\<close>, \<open>theta = arcsin (wavelength * y)\<close>, \<open>F\<close> is the
  sum over every atom of the 4-Gaussian form factor of its element at \<open>y\<close> times
  \<open>exp (2 pi i * dot (position, (h, k, l)))\<close>, and
  \<open>LP = (1 + cos (2 theta)\<^sup>2) / (8 sin theta\<^sup>2 cos theta)\<close>. The sine bound holds for
  the plane and every atom's element has nine coefficients in the table. The
  order in which the set of elements is iterated does not matter.
\<close>

theorem get_xrd_intensity:
  assumes ok: "set_iter_ok set_iter"
    and run: "get_xrd form_lines set_iter self = Inr (self', out)"
    and prof: "inten_profile self' = Some prof"
    and mem: "(h, k, l, twotheta, inten) \<in> set prof"
    and rec: "rec_lattice self = (k_1, k_2, k_3)"
    and y: "y = norm3 (add3 (add3 (scale3 (real_of_int h) k_1) (scale3 (real_of_int k) k_2))
                           (scale3 (real_of_int l) k_3)) / (4 * pi)"
    and theta: "theta = arcsin (wavelength self * y)"
    and F: "F = (\<Sum>atom\<leftarrow>atoms self.
                  complex_of_real (form_factor_spec (the (get_atom_form form_lines (fst atom))) y) *
                  exp (2 * \<i> * complex_of_real pi *
                       complex_of_real (dot3 (snd atom) (real_of_int h, real_of_int k, real_of_int l))))"
  shows "inten = (cmod F)\<^sup>2 * ((1 + (cos (2 * theta))\<^sup>2) / (8 * (sin theta)\<^sup>2 * cos theta)) \<and>
         twotheta = 2 * theta * 180 / pi \<and>
         - 1 \<le> wavelength self * y \<and> wavelength self * y \<le> 1 \<and>
         (\<forall>atom\<in>set (atoms self). \<exists>p. get_atom_form form_lines (fst atom) = Some p \<and> 9 \<le> length p)"
proof -
  let ?es = "set_iter (map fst (atoms self))"
  from get_xrd_Inr[OF run rec] obtain ks prof' ints tts where
    loop: "xrd_loop form_lines ?es self ks ([], [], [], []) = Inr (prof', ints, tts, out)"
    and self': "self' = self \<lparr> inten_profile := Some prof', twotheta_list := Some tts,
                     intensity_list := Some ints \<rparr>"
    by blast
  have "prof' = prof" using prof self' by simp
  with xrd_loop_profile[OF loop] mem obtain hkl where
    pl: "xrd_plane form_lines ?es self hkl = Inr (Reflection (h, k, l, twotheta, inten))"
    by auto
  obtain h' k' l' where hkl: "hkl = (h', k', l')" by (cases hkl)
  let ?y = "norm3 (vecmat (plane_vec (h', k', l')) (rec_lattice self)) / 4 / pi"
  from xrd_plane_Reflection[OF pl[unfolded hkl]] obtain sfl where
    sfl: "s_factor_loop form_lines (atoms self) (h', k', l') ?y ?es = Inr sfl"
    and r: "(h, k, l, twotheta, inten) = (h', k', l',
               2 * 180 / pi * arcsin (wavelength self * ?y),
               (cmod (sum_list sfl))\<^sup>2 *
               ((1 + (cos (arcsin (wavelength self * ?y) * 2))\<^sup>2) /
                (8 * (sin (arcsin (wavelength self * ?y)))\<^sup>2 *
                 cos (arcsin (wavelength self * ?y)))))"
    by blast
  from r have eq: "h' = h" "k' = k" "l' = l" by simp_all
  have yy: "?y = y" unfolding y eq rec vecmat_rows by simp
  have es: "distinct ?es" "set ?es = set (map fst (atoms self))"
    using ok by (simp_all add: set_iter_ok_def)
  have yy': "norm3 (vecmat (real_of_int h, real_of_int k, real_of_int l) (rec_lattice self)) /
               (4 * pi) = y"
    using yy unfolding eq by simp
  have "sum_list sfl = F"
    using s_factor_loop_all_atoms[OF sfl es] unfolding F eq
    by (simp add: s_factor_def yy')
  moreover have "\<forall>atom\<in>set (atoms self). \<exists>p. get_atom_form form_lines (fst atom) = Some p \<and> 9 \<le> length p"
    using s_factor_loop_forms[OF sfl] es(2) by auto
  moreover have "- 1 \<le> wavelength self * y \<and> wavelength self * y \<le> 1"
    using xrd_plane_range[OF pl[unfolded hkl], unfolded yy] by blast
  ultimately show ?thesis using r[unfolded yy] theta by (simp add: mult.commute)
qed

theorem get_xrd_intensity_witness:
  "\<exists>self' out prof twotheta inten.
     set_iter_ok remdups \<and>
     get_xrd si_form remdups unit_cell = Inr (self', out) \<and>
     inten_profile self' = Some prof \<and>
     (1, 0, 0, twotheta, inten) \<in> set prof \<and>
     twotheta = 60 \<and>
     inten = (cmod (\<Sum>atom\<leftarrow>atoms unit_cell.
                  complex_of_real (form_factor_spec (the (get_atom_form si_form (fst atom))) (1 / 2)) *
                  exp (2 * \<i> * complex_of_real pi *
                       complex_of_real (dot3 (snd atom) (real_of_int 1, real_of_int 0, real_of_int 0)))))\<^sup>2 *
             ((1 + (cos (2 * (pi / 6)))\<^sup>2) / (8 * (sin (pi / 6))\<^sup>2 * cos (pi / 6)))"
proof -
  let ?k1 = "(2 * pi, 0, 0) :: vec3" and ?k2 = "(0, 2 * pi, 0) :: vec3"
    and ?k3 = "(0, 0, 2 * pi) :: vec3"
  let ?es = "remdups (map fst (atoms unit_cell))"
  have es: "\<forall>e\<in>set ?es. \<exists>p. get_atom_form si_form e = Some p \<and> 9 \<le> length p"
    by (simp add: unit_cell_fields si_form_Si)
  have b: "kvec_bound unit_cell ?k1 ?k2 ?k3 None = Inr 2"
    by (simp add: kvec_bound_def axis_index_def unit_cell_fields MAX_INDEX_def sqrt_4_pi_pi)
  let ?ks = "filter (\<lambda>hkl. - 1 \<le> sin_twotheta (wavelength unit_cell) ?k1 ?k2 ?k3 hkl \<and>
                         sin_twotheta (wavelength unit_cell) ?k1 ?k2 ?k3 hkl \<le> 1)
            (product3 (xrange (- 2) (2 + 1)))"
  have ks: "get_kvec_list unit_cell ?k1 ?k2 ?k3 None = Inr ?ks"
    by (rule get_kvec_list_filter[OF b])
  have in_ks: "(1, 0, 0) \<in> set ?ks"
    by (simp add: set_product3 set_xrange unit_cell_fields sqrt_4_pi_pi)
  have pos: "0 < wavelength unit_cell" by (simp add: unit_cell_fields)
  have "\<forall>hkl\<in>set ?ks. \<exists>oc. xrd_plane si_form ?es unit_cell hkl = Inr oc"
    using xrd_plane_total[OF es pos] by blast
  from xrd_loop_total[OF this, of "([], [], [], [])"] obtain prof ints tts out where
    loop: "xrd_loop si_form ?es unit_cell ?ks ([], [], [], []) = Inr (prof, ints, tts, out)"
    by (metis prod_cases4)
  let ?self' = "unit_cell \<lparr> inten_profile := Some prof, twotheta_list := Some tts,
                     intensity_list := Some ints \<rparr>"
  have run: "get_xrd si_form remdups unit_cell = Inr (?self', out)"
    using ks loop by (simp add: get_xrd_def Let_def unit_cell_fields)
  have y: "norm3 (vecmat (plane_vec (1, 0, 0)) (rec_lattice unit_cell)) / 4 / pi = 1 / 2"
    by (simp add: unit_cell_fields sqrt_4_pi_pi)
  obtain oc where oc: "xrd_plane si_form ?es unit_cell (1, 0, 0) = Inr oc"
    using xrd_plane_total[OF es pos] by blast
  obtain sfl where sfl: "s_factor_loop si_form (atoms unit_cell) (1, 0, 0) (1 / 2) ?es = Inr sfl"
    using s_factor_loop_total[OF es] by blast
  have "\<exists>r. oc = Reflection r"
    using oc unfolding xrd_plane.simps Let_def y sfl
    by (auto simp: unit_cell_fields split: if_splits)
  then obtain r where r: "xrd_plane si_form ?es unit_cell (1, 0, 0) = Inr (Reflection r)"
    using oc by blast
  obtain twotheta inten where r4: "r = (1, 0, 0, twotheta, inten)"
    using xrd_plane_Reflection[OF r] by blast
  have mem: "(1, 0, 0, twotheta, inten) \<in> set prof"
    using xrd_loop_profile[OF loop, unfolded fst_conv] r[unfolded r4] in_ks by blast
  have p: "inten_profile ?self' = Some prof" by simp
  have yy: "(1 / 2 :: real) = norm3 (add3 (add3 (scale3 (real_of_int 1) ?k1) (scale3 (real_of_int 0) ?k2))
                           (scale3 (real_of_int 0) ?k3)) / (4 * pi)"
    by (simp add: sqrt_4_pi_pi)
  have th: "pi / 6 = arcsin (wavelength unit_cell * (1 / 2))"
    by (simp add: unit_cell_fields)
  from get_xrd_intensity[OF set_iter_ok_remdups run p mem unit_cell_fields(1) yy th refl]
  have "inten = (cmod (\<Sum>atom\<leftarrow>atoms unit_cell.
                  complex_of_real (form_factor_spec (the (get_atom_form si_form (fst atom))) (1 / 2)) *
                  exp (2 * \<i> * complex_of_real pi *
                       complex_of_real (dot3 (snd atom) (real_of_int 1, real_of_int 0, real_of_int 0)))))\<^sup>2 *
             ((1 + (cos (2 * (pi / 6)))\<^sup>2) / (8 * (sin (pi / 6))\<^sup>2 * cos (pi / 6)))"
    and "twotheta = 2 * (pi / 6) * 180 / pi" by blast+
  moreover have "2 * (pi / 6) * 180 / pi = (60::real)" by simp
  ultimately show ?thesis using set_iter_ok_remdups run p mem by blast
qed

text \<open>
  Claim C8. When every element of the atom list has its nine coefficients, a
  triple whose angle \<open>theta = arcsin (wavelength * y)\<close> is exactly 0 or exactly
  \<open>pi / 2\<close> is skipped: the pass of the loop ends with no record and no exception,
  the loop over the triples gives what it gives without that triple, and the
  pattern of \<^verbatim>\<open>get_xrd\<close> has no record for it.
\<close>

theorem degenerate_theta_skipped:
  assumes ok: "set_iter_ok set_iter"
    and forms: "\<forall>atom\<in>set (atoms self). \<exists>p. get_atom_form form_lines (fst atom) = Some p \<and> 9 \<le> length p"
    and es: "elements = set_iter (map fst (atoms self))"
    and y: "y = norm3 (vecmat (plane_vec (h, k, l)) (rec_lattice self)) / 4 / pi"
    and range: "- 1 \<le> wavelength self * y \<and> wavelength self * y \<le> 1"
    and deg: "arcsin (wavelength self * y) = 0 \<or> arcsin (wavelength self * y) = pi / 2"
  shows "xrd_plane form_lines elements self (h, k, l) = Inr Skipped \<and>
         xrd_loop form_lines elements self (before @ (h, k, l) # after) acc =
           xrd_loop form_lines elements self (before @ after) acc \<and>
         (get_xrd form_lines set_iter self = Inr (self', out) \<longrightarrow>
            (\<forall>twotheta inten. (h, k, l, twotheta, inten) \<notin> set (the (inten_profile self'))))"
proof -
  have f: "\<forall>e\<in>set elements. \<exists>p. get_atom_form form_lines e = Some p \<and> 9 \<le> length p"
    using forms ok unfolding es set_iter_ok_def by auto
  have sk: "xrd_plane form_lines elements self (h, k, l) = Inr Skipped"
    using xrd_plane_degenerate[OF f] range deg unfolding y by blast
  have lp: "xrd_loop form_lines elements self (before @ (h, k, l) # after) acc =
           xrd_loop form_lines elements self (before @ after) acc"
    unfolding xrd_loop_append using sk
    by (auto simp del: xrd_plane.simps split: sum.splits)
  have "(h, k, l, twotheta, inten) \<notin> set (the (inten_profile self'))"
    if run: "get_xrd form_lines set_iter self = Inr (self', out)" for twotheta inten
  proof
    assume mem: "(h, k, l, twotheta, inten) \<in> set (the (inten_profile self'))"
    obtain k_1 k_2 k_3 where rec: "rec_lattice self = (k_1, k_2, k_3)"
      by (cases "rec_lattice self")
    from get_xrd_Inr[OF run rec] obtain ks prof ints tts where
      loop: "xrd_loop form_lines elements self ks ([], [], [], []) = Inr (prof, ints, tts, out)"
      and self': "self' = self \<lparr> inten_profile := Some prof, twotheta_list := Some tts,
                     intensity_list := Some ints \<rparr>"
      unfolding es by blast
    from mem self' have "(h, k, l, twotheta, inten) \<in> set prof" by simp
    with xrd_loop_profile[OF loop] obtain hkl where
      pl: "xrd_plane form_lines elements self hkl = Inr (Reflection (h, k, l, twotheta, inten))"
      by auto
    obtain h' k' l' where hkl: "hkl = (h', k', l')" by (cases hkl)
    from xrd_plane_Reflection[OF pl[unfolded hkl]] have "h' = h" "k' = k" "l' = l" by auto
    with pl hkl sk show False by simp
  qed
  thus ?thesis using sk lp by blast
qed

theorem degenerate_theta_skipped_witness:
  "set_iter_ok remdups \<and>
   arcsin (wavelength unit_cell *
           (norm3 (vecmat (plane_vec (0, 0, 0)) (rec_lattice unit_cell)) / 4 / pi)) = 0 \<and>
   xrd_plane si_form (remdups (map fst (atoms unit_cell))) unit_cell (0, 0, 0) = Inr Skipped \<and>
   xrd_loop si_form (remdups (map fst (atoms unit_cell))) unit_cell ([] @ (0, 0, 0) # [])
       ([], [], [], []) = Inr ([], [], [], []) \<and>
   (\<exists>self' out. get_xrd si_form remdups unit_cell = Inr (self', out) \<and>
      (\<forall>twotheta inten. (0, 0, 0, twotheta, inten) \<notin> set (the (inten_profile self'))))"
proof -
  have forms: "\<forall>atom\<in>set (atoms unit_cell).
      \<exists>p. get_atom_form si_form (fst atom) = Some p \<and> 9 \<le> length p"
    by (simp add: unit_cell_fields si_form_Si)
  have y0: "norm3 (vecmat (plane_vec (0, 0, 0)) (rec_lattice unit_cell)) / 4 / pi = 0"
    by (simp add: unit_cell_fields)
  have range: "- 1 \<le> wavelength unit_cell *
                 (norm3 (vecmat (plane_vec (0, 0, 0)) (rec_lattice unit_cell)) / 4 / pi) \<and>
               wavelength unit_cell *
                 (norm3 (vecmat (plane_vec (0, 0, 0)) (rec_lattice unit_cell)) / 4 / pi) \<le> 1"
    unfolding y0 by simp
  have deg: "arcsin (wavelength unit_cell *
           (norm3 (vecmat (plane_vec (0, 0, 0)) (rec_lattice unit_cell)) / 4 / pi)) = 0"
    unfolding y0 by simp
  obtain self' out where run: "get_xrd si_form remdups unit_cell = Inr (self', out)"
    using get_xrd_total[OF set_iter_ok_remdups forms _ unit_cell_fields(1)]
    by (auto simp: unit_cell_fields sqrt_4_pi_pi)
  from degenerate_theta_skipped[OF set_iter_ok_remdups forms refl refl range disjI1[OF deg],
      of "[]" "[]" "([], [], [], [])" self' out] run
  have "xrd_plane si_form (remdups (map fst (atoms unit_cell))) unit_cell (0, 0, 0) = Inr Skipped"
    and "xrd_loop si_form (remdups (map fst (atoms unit_cell))) unit_cell ([] @ (0, 0, 0) # [])
       ([], [], [], []) = Inr ([], [], [], [])"
    and "\<forall>twotheta inten. (0, 0, 0, twotheta, inten) \<notin> set (the (inten_profile self'))"
    by simp_all
  thus ?thesis using set_iter_ok_remdups deg run by blast
qed

text \<open>
  Claim C10. When no triple other than \<open>(0, 0, 0)\<close> satisfies the sine bound and
  every element of the atom list has its nine coefficients, \<^verbatim>\<open>get_xrd\<close> returns
  without an exception, with an empty \<^verbatim>\<open>inten_profile\<close>, \<^verbatim>\<open>twotheta_list\<close> and
  \<^verbatim>\<open>intensity_list\<close> and nothing printed.
\<close>

theorem get_xrd_empty_pattern:
  assumes ok: "set_iter_ok set_iter"
    and forms: "\<forall>atom\<in>set (atoms self). \<exists>p. get_atom_form form_lines (fst atom) = Some p \<and> 9 \<le> length p"
    and rec: "rec_lattice self = (k_1, k_2, k_3)"
    and none: "\<forall>h k l. (h, k, l) \<noteq> (0, 0, 0) \<longrightarrow>
        \<not> (- 1 \<le> wavelength self *
                  norm3 (add3 (add3 (scale3 (real_of_int h) k_1) (scale3 (real_of_int k) k_2))
                              (scale3 (real_of_int l) k_3)) / (4 * pi) \<and>
           wavelength self *
                  norm3 (add3 (add3 (scale3 (real_of_int h) k_1) (scale3 (real_of_int k) k_2))
                              (scale3 (real_of_int l) k_3)) / (4 * pi) \<le> 1)"
  shows "get_xrd form_lines set_iter self =
           Inr (self \<lparr> inten_profile := Some [], twotheta_list := Some [],
                       intensity_list := Some [] \<rparr>, [])"
proof -
  let ?es = "set_iter (map fst (atoms self))"
  let ?wl = "wavelength self"
  have f: "\<forall>e\<in>set ?es. \<exists>p. get_atom_form form_lines e = Some p \<and> 9 \<le> length p"
    using forms ok unfolding set_iter_ok_def by auto
  have n1: "\<not> (- 1 \<le> ?wl * norm3 k_1 / (4 * pi) \<and> ?wl * norm3 k_1 / (4 * pi) \<le> 1)"
    using none[rule_format, of 1 0 0] unfolding bragg_axis by simp
  have n2: "\<not> (- 1 \<le> ?wl * norm3 k_2 / (4 * pi) \<and> ?wl * norm3 k_2 / (4 * pi) \<le> 1)"
    using none[rule_format, of 0 1 0] unfolding bragg_axis by simp
  have n3: "\<not> (- 1 \<le> ?wl * norm3 k_3 / (4 * pi) \<and> ?wl * norm3 k_3 / (4 * pi) \<le> 1)"
    using none[rule_format, of 0 0 1] unfolding bragg_axis by simp
  have "?wl \<noteq> 0" using n1 by auto
  moreover have "norm3 k_1 \<noteq> 0" using n1 by auto
  moreover have "norm3 k_2 \<noteq> 0" using n2 by auto
  moreover have "norm3 k_3 \<noteq> 0" using n3 by auto
  ultimately obtain b where b: "kvec_bound self k_1 k_2 k_3 None = Inr b"
    using kvec_bound_None_total by blast
  let ?ks = "filter (\<lambda>hkl. - 1 \<le> sin_twotheta ?wl k_1 k_2 k_3 hkl \<and>
                         sin_twotheta ?wl k_1 k_2 k_3 hkl \<le> 1)
            (product3 (xrange (- b) (b + 1)))"
  have ks: "get_kvec_list self k_1 k_2 k_3 None = Inr ?ks" by (rule get_kvec_list_filter[OF b])
  have zero: "hkl = (0, 0, 0)" if "hkl \<in> set ?ks" for hkl
  proof -
    obtain h k l where hkl: "hkl = (h, k, l)" by (cases hkl)
    from that have "- 1 \<le> sin_twotheta ?wl k_1 k_2 k_3 (h, k, l) \<and>
                    sin_twotheta ?wl k_1 k_2 k_3 (h, k, l) \<le> 1"
      unfolding hkl by simp
    hence "(h, k, l) = (0, 0, 0)"
      unfolding sin_twotheta_eq using none[rule_format, of h k l] by blast
    thus ?thesis using hkl by simp
  qed
  have v0: "vecmat (0, 0, 0) (rec_lattice self) = (0, 0, 0)"
    unfolding rec by (cases k_1; cases k_2; cases k_3) simp
  have "xrd_plane form_lines ?es self (0, 0, 0) = Inr Skipped"
    by (rule xrd_plane_degenerate[OF f]) (simp_all add: v0)
  hence "\<forall>hkl\<in>set ?ks. xrd_plane form_lines ?es self hkl = Inr Skipped"
    using zero by (auto simp del: xrd_plane.simps)
  hence "xrd_loop form_lines ?es self ?ks ([], [], [], []) = Inr ([], [], [], [])"
    by (rule xrd_loop_skipped)
  thus ?thesis using ks rec by (simp add: get_xrd_def Let_def)
qed

theorem get_xrd_empty_pattern_witness:
  "set_iter_ok remdups \<and>
   get_xrd si_form remdups long_wave_cell =
     Inr (long_wave_cell \<lparr> inten_profile := Some [], twotheta_list := Some [],
                            intensity_list := Some [] \<rparr>, [])"
proof -
  have forms: "\<forall>atom\<in>set (atoms long_wave_cell).
      \<exists>p. get_atom_form si_form (fst atom) = Some p \<and> 9 \<le> length p"
    by (simp add: long_wave_cell_fields si_form_Si)
  have none: "\<forall>h k l. (h, k, l) \<noteq> (0, 0, 0) \<longrightarrow>
        \<not> (- 1 \<le> wavelength long_wave_cell *
                  norm3 (add3 (add3 (scale3 (real_of_int h) (2 * pi, 0, 0))
                                    (scale3 (real_of_int k) (0, 2 * pi, 0)))
                              (scale3 (real_of_int l) (0, 0, 2 * pi))) / (4 * pi) \<and>
           wavelength long_wave_cell *
                  norm3 (add3 (add3 (scale3 (real_of_int h) (2 * pi, 0, 0))
                                    (scale3 (real_of_int k) (0, 2 * pi, 0)))
                              (scale3 (real_of_int l) (0, 0, 2 * pi))) / (4 * pi) \<le> 1)"
  proof (intro allI impI)
    fix h k l :: int
    assume nz: "(h, k, l) \<noteq> (0, 0, 0)"
    have sq: "0 \<le> a * a" for a :: int by simp
    have one: "a \<noteq> 0 \<Longrightarrow> 1 \<le> a * a" for a :: int
      using mult_mono[of 1 "\<bar>a\<bar>" 1 "\<bar>a\<bar>"] by (simp add: abs_mult_self_eq)
    have "1 \<le> h * h + k * k + l * l"
    proof (cases "h \<noteq> 0")
      case True
      then show ?thesis using one[of h] sq[of k] sq[of l] by linarith
    next
      case h0: False
      show ?thesis
      proof (cases "k \<noteq> 0")
        case True
        then show ?thesis using one[of k] sq[of h] sq[of l] by linarith
      next
        case False
        hence "l \<noteq> 0" using nz h0 by simp
        then show ?thesis using one[of l] sq[of h] sq[of k] by linarith
      qed
    qed
    hence "(1::real) \<le> real_of_int (h * h + k * k + l * l)" by linarith
    hence n: "(1::real) \<le> real_of_int h * real_of_int h + real_of_int k * real_of_int k +
                 real_of_int l * real_of_int l" by simp
    let ?n = "real_of_int h * real_of_int h + real_of_int k * real_of_int k +
                 real_of_int l * real_of_int l"
    have "norm3 (add3 (add3 (scale3 (real_of_int h) (2 * pi, 0, 0))
                                    (scale3 (real_of_int k) (0, 2 * pi, 0)))
                              (scale3 (real_of_int l) (0, 0, 2 * pi))) =
          sqrt ((2 * pi) * (2 * pi) * ?n)"
      by (simp add: algebra_simps)
    also have "\<dots> = sqrt ((2 * pi) * (2 * pi)) * sqrt ?n" by (rule real_sqrt_mult)
    also have "\<dots> = 2 * pi * sqrt ?n" by (simp add: sqrt_4_pi_pi)
    finally have nm: "norm3 (add3 (add3 (scale3 (real_of_int h) (2 * pi, 0, 0))
                                    (scale3 (real_of_int k) (0, 2 * pi, 0)))
                              (scale3 (real_of_int l) (0, 0, 2 * pi))) = 2 * pi * sqrt ?n" .
    have s1: "1 \<le> sqrt ?n" using n by (rule real_sqrt_ge_one)
    have "3 * (2 * pi * sqrt ?n) / (4 * pi) = 3 / 2 * sqrt ?n" by simp
    hence "1 < 3 * (2 * pi * sqrt ?n) / (4 * pi)" using s1 by linarith
    thus "\<not> (- 1 \<le> wavelength long_wave_cell *
                  norm3 (add3 (add3 (scale3 (real_of_int h) (2 * pi, 0, 0))
                                    (scale3 (real_of_int k) (0, 2 * pi, 0)))
                              (scale3 (real_of_int l) (0, 0, 2 * pi))) / (4 * pi) \<and>
           wavelength long_wave_cell *
                  norm3 (add3 (add3 (scale3 (real_of_int h) (2 * pi, 0, 0))
                                    (scale3 (real_of_int k) (0, 2 * pi, 0)))
                              (scale3 (real_of_int l) (0, 0, 2 * pi))) / (4 * pi) \<le> 1)"
      unfolding nm long_wave_cell_fields by simp
  qed
  from get_xrd_empty_pattern[OF set_iter_ok_remdups forms long_wave_cell_fields(1) none]
  show ?thesis using set_iter_ok_remdups by simp
qed

section \<open>Facts about the d-spacing report\<close>

lemma gather_Inr:
  "gather xs is = Inr vs \<Longrightarrow> vs = map ((!) xs) is \<and> (\<forall>i\<in>set is. i < length xs)"
  by (induction "is" arbitrary: vs) (auto simp: py_get_def split: sum.splits if_splits)

lemma write_rows_Inr:
  "write_rows ys xs ds is = Inr rows \<Longrightarrow>
   rows = map (\<lambda>i. (ys ! i, xs ! i, ds ! i)) is \<and>
   (\<forall>i\<in>set is. i < length ys \<and> i < length xs \<and> i < length ds)"
  by (induction "is" arbitrary: rows) (auto simp: py_get_def split: sum.splits if_splits)

lemma d_spacing_Inr:
  "d_spacing wl xs = Inr ds \<Longrightarrow> ds = map (\<lambda>x. wl / (2 * sin (x * pi / 360))) xs"
  by (auto simp: d_spacing_def split: if_splits)

lemma argsort_sorts:
  assumes "mset idx = mset [0..<length ys]" "sorted (map (\<lambda>i. ys ! i) idx)"
  shows "sort ys = map (\<lambda>i. ys ! i) idx"
proof -
  have "mset (map (\<lambda>i. ys ! i) idx) = image_mset (\<lambda>i. ys ! i) (mset [0..<length ys])"
    by (simp only: mset_map assms(1))
  also have "\<dots> = mset (map (\<lambda>i. ys ! i) [0..<length ys])" by simp
  also have "\<dots> = mset ys" by (simp add: map_nth)
  finally show ?thesis using assms(2) by (intro properties_for_sort) simp_all
qed

lemma dspacing_table_rows:
  assumes ok: "argsort_ok argsort"
    and run: "dspacing_table argsort wl x_list y_list = Inr rep"
  shows "firstline rep = ''intensity two_theta d_spacing'' \<and>
         templines rep =
           map (\<lambda>i. (y_list ! i, x_list ! i, wl / (2 * sin (x_list ! i * pi / 360))))
               (rev (argsort y_list))"
proof -
  let ?idx = "argsort y_list"
  have perm: "mset ?idx = mset [0..<length y_list]"
    and srt: "sorted (map (\<lambda>i. y_list ! i) ?idx)"
    using ok by (simp_all add: argsort_ok_def)
  from run obtain picked ds rows where
    g: "gather x_list ?idx = Inr picked"
    and d: "d_spacing wl (rev picked) = Inr ds"
    and w: "write_rows (rev (sort y_list)) (rev picked) ds [0..<length (rev picked)] = Inr rows"
    and rep: "rep = \<lparr> firstline = ''intensity two_theta d_spacing'', templines = rows \<rparr>"
    by (auto simp: dspacing_table_def Let_def split: sum.splits)
  have picked: "picked = map ((!) x_list) ?idx" using gather_Inr[OF g] by simp
  have xs: "rev picked = map ((!) x_list) (rev ?idx)" by (simp add: picked rev_map)
  have ys: "rev (sort y_list) = map ((!) y_list) (rev ?idx)"
    using argsort_sorts[OF perm srt] by (simp add: rev_map)
  have ds: "ds = map (\<lambda>i. wl / (2 * sin (x_list ! i * pi / 360))) (rev ?idx)"
    using d_spacing_Inr[OF d] by (simp add: xs)
  have "rows = map (\<lambda>i. (rev (sort y_list) ! i, rev picked ! i, ds ! i)) [0..<length (rev ?idx)]"
    using write_rows_Inr[OF w] by (simp add: picked)
  also have "\<dots> = map (\<lambda>i. (y_list ! (rev ?idx ! i), x_list ! (rev ?idx ! i),
                             wl / (2 * sin (x_list ! (rev ?idx ! i) * pi / 360))))
                       [0..<length (rev ?idx)]"
    unfolding xs ys ds by (intro map_cong) simp_all
  also have "\<dots> = map (\<lambda>i. (y_list ! i, x_list ! i, wl / (2 * sin (x_list ! i * pi / 360))))
                       (rev ?idx)"
    by (rule nth_equalityI) simp_all
  finally show ?thesis using rep by simp
qed

lemma get_xrd_wavelength:
  "get_xrd tbl si self = Inr (self', out) \<Longrightarrow> wavelength self' = wavelength self"
  by (auto simp: get_xrd_def Let_def split: sum.splits prod.splits)

lemma sum_intensity_lengths:
  "sum_intensity xs ys tol = Inr (nx, ny) \<Longrightarrow> length nx = length ny"
  using sum_intensity_loop_far[of tol ys 0 xs "[]" "[]" nx ny] by (simp add: sum_intensity_def)

lemma normalize_length:
  "normalize ys m = Inr zs \<Longrightarrow> length zs = length ys"
  by (auto simp: normalize_def split: sum.splits if_splits)

lemma argsort_ok_stable: "argsort_ok stable_argsort"
  by (simp add: argsort_ok_def stable_argsort_def)

lemma upt_2: "[0..<2] = [0, 1]"
  by (simp add: numeral_2_eq_2)

lemma sum_list_update_add:
  fixes ny :: "real list"
  shows "j < length ny \<Longrightarrow> sum_list (ny[j := ny ! j + y]) = sum_list ny + y"
proof (induction ny arbitrary: j)
  case Nil
  then show ?case by simp
next
  case (Cons v ny)
  then show ?case by (cases j) simp_all
qed

lemma sum_intensity_loop_Cons:
  assumes len: "length nx = length ny" and i: "i < length ys"
    and run: "sum_intensity_loop tol ys i (x # xs) (nx, ny) = Inr (nx', ny')"
  shows "\<exists>mx my. sum_intensity_loop tol ys (Suc i) xs (mx, my) = Inr (nx', ny') \<and>
           length mx = length my \<and> set mx \<subseteq> insert x (set nx) \<and>
           sum_list my = sum_list ny + ys ! i \<and>
           set my \<subseteq> set ny \<union> {ys ! i} \<union> {v + ys ! i | v. v \<in> set ny}"
proof (cases "np_where (map (\<lambda>r. \<bar>r - x\<bar> \<le> tol) nx) = []")
  case True
  hence "sum_intensity_loop tol ys (Suc i) xs (nx @ [x], ny @ [ys ! i]) = Inr (nx', ny')"
    using run i by (simp add: py_get_def)
  thus ?thesis using len by (intro exI[of _ "nx @ [x]"] exI[of _ "ny @ [ys ! i]"]) auto
next
  case False
  let ?j = "np_where (map (\<lambda>r. \<bar>r - x\<bar> \<le> tol) nx) ! 0"
  have j: "?j < length ny" using np_where_first[OF False] len by simp
  hence "sum_intensity_loop tol ys (Suc i) xs (nx, ny[?j := ny ! ?j + ys ! i]) = Inr (nx', ny')"
    using run i False by (simp add: py_get_def Let_def)
  moreover have "set (ny[?j := ny ! ?j + ys ! i]) \<subseteq>
                   set ny \<union> {ys ! i} \<union> {v + ys ! i | v. v \<in> set ny}"
    using set_update_subset_insert[of ny ?j "ny ! ?j + ys ! i"] j by auto
  ultimately show ?thesis using len j
    by (intro exI[of _ nx] exI[of _ "ny[?j := ny ! ?j + ys ! i]"])
       (auto simp: sum_list_update_add)
qed

lemma sum_intensity_loop_sum:
  "sum_intensity_loop tol ys i xs (nx, ny) = Inr (nx', ny') \<Longrightarrow> length nx = length ny \<Longrightarrow>
   i + length xs \<le> length ys \<Longrightarrow>
   sum_list ny' = sum_list ny + sum_list (take (length xs) (drop i ys))"
proof (induction xs arbitrary: i nx ny)
  case Nil
  then show ?case by simp
next
  case (Cons x xs)
  have i: "i < length ys" and i': "Suc i + length xs \<le> length ys" using Cons.prems(3) by simp_all
  from sum_intensity_loop_Cons[OF Cons.prems(2) i Cons.prems(1)] obtain mx my where
    r: "sum_intensity_loop tol ys (Suc i) xs (mx, my) = Inr (nx', ny')"
    and l: "length mx = length my" and s: "sum_list my = sum_list ny + ys ! i" by blast
  have "take (length (x # xs)) (drop i ys) = ys ! i # take (length xs) (drop (Suc i) ys)"
    using i by (simp add: Cons_nth_drop_Suc[symmetric])
  thus ?case using Cons.IH[OF r l i'] s by simp
qed

lemma sum_intensity_loop_nonneg:
  "sum_intensity_loop tol ys i xs (nx, ny) = Inr (nx', ny') \<Longrightarrow> length nx = length ny \<Longrightarrow>
   i + length xs \<le> length ys \<Longrightarrow> \<forall>y\<in>set ys. 0 \<le> y \<Longrightarrow> \<forall>v\<in>set ny. 0 \<le> v \<Longrightarrow>
   \<forall>v\<in>set ny'. 0 \<le> v"
proof (induction xs arbitrary: i nx ny)
  case Nil
  then show ?case by simp
next
  case (Cons x xs)
  have i: "i < length ys" and i': "Suc i + length xs \<le> length ys" using Cons.prems(3) by simp_all
  from sum_intensity_loop_Cons[OF Cons.prems(2) i Cons.prems(1)] obtain mx my where
    r: "sum_intensity_loop tol ys (Suc i) xs (mx, my) = Inr (nx', ny')"
    and l: "length mx = length my"
    and s: "set my \<subseteq> set ny \<union> {ys ! i} \<union> {v + ys ! i | v. v \<in> set ny}" by blast
  have "0 \<le> ys ! i" using Cons.prems(4) i by simp
  hence "\<forall>v\<in>set my. 0 \<le> v" using s Cons.prems(5) by fastforce
  from Cons.IH[OF r l i' Cons.prems(4) this] show ?case .
qed

lemma sum_intensity_loop_reps:
  "sum_intensity_loop tol ys i xs (nx, ny) = Inr (nx', ny') \<Longrightarrow> length nx = length ny \<Longrightarrow>
   i + length xs \<le> length ys \<Longrightarrow> set nx' \<subseteq> set nx \<union> set xs"
proof (induction xs arbitrary: i nx ny)
  case Nil
  then show ?case by simp
next
  case (Cons x xs)
  have i: "i < length ys" and i': "Suc i + length xs \<le> length ys" using Cons.prems(3) by simp_all
  from sum_intensity_loop_Cons[OF Cons.prems(2) i Cons.prems(1)] obtain mx my where
    r: "sum_intensity_loop tol ys (Suc i) xs (mx, my) = Inr (nx', ny')"
    and l: "length mx = length my" and s: "set mx \<subseteq> insert x (set nx)" by blast
  from Cons.IH[OF r l i'] s show ?case by auto
qed

lemma gather_total:
  "\<forall>i\<in>set is. i < length xs \<Longrightarrow> gather xs is = Inr (map ((!) xs) is)"
  by (induction "is") (simp_all add: py_get_def)

lemma write_rows_total:
  "\<forall>i\<in>set is. i < length ys \<and> i < length xs \<and> i < length ds \<Longrightarrow>
   write_rows ys xs ds is = Inr (map (\<lambda>i. (ys ! i, xs ! i, ds ! i)) is)"
  by (induction "is") (simp_all add: py_get_def)

lemma dspacing_table_total:
  assumes ok: "argsort_ok argsort" and len: "length x_list = length y_list"
    and nz: "\<forall>x\<in>set x_list. sin (x * pi / 360) \<noteq> 0"
  shows "\<exists>rep. dspacing_table argsort wl x_list y_list = Inr rep"
proof -
  let ?idx = "argsort y_list"
  have perm: "mset ?idx = mset [0..<length y_list]" using ok by (simp add: argsort_ok_def)
  have idx: "set ?idx = {0..<length y_list}" using mset_eq_setD[OF perm] by simp
  have n: "length ?idx = length y_list" using mset_eq_length[OF perm] by simp
  have g: "gather x_list ?idx = Inr (map ((!) x_list) ?idx)"
    by (rule gather_total) (simp add: idx len)
  let ?xs = "rev (map ((!) x_list) ?idx)"
  have "set ?xs = (!) x_list ` set ?idx" by simp
  hence "set ?xs \<subseteq> set x_list" unfolding idx using len by auto
  hence d: "d_spacing wl ?xs = Inr (map (\<lambda>x. wl / (2 * sin (x * pi / 360))) ?xs)"
    using nz by (auto simp: d_spacing_def list_ex_iff)
  let ?ds = "map (\<lambda>x. wl / (2 * sin (x * pi / 360))) ?xs"
  have w: "write_rows (rev (sort y_list)) ?xs ?ds [0..<length ?xs] =
             Inr (map (\<lambda>i. (rev (sort y_list) ! i, ?xs ! i, ?ds ! i)) [0..<length ?xs])"
    by (rule write_rows_total) (simp add: n)
  show ?thesis by (simp add: dspacing_table_def Let_def g d w del: length_rev length_map)
qed

lemma get_dspacing_cached_total:
  assumes ok: "argsort_ok argsort"
    and x: "twotheta_list self = Some x_list" and ne: "x_list \<noteq> []"
    and y: "intensity_list self = Some y_list"
    and len: "length x_list = length y_list"
    and ang: "\<forall>x\<in>set x_list. 0 < x \<and> x < 360"
    and nonneg: "\<forall>y\<in>set y_list. 0 \<le> y"
    and pos: "\<exists>y\<in>set y_list. 0 < y"
  shows "\<exists>r. get_dspacing form_lines set_iter argsort self = Inr (self, [], r)"
proof -
  let ?tol = tolerance_default
  obtain nx ny where run: "sum_intensity_loop ?tol y_list 0 x_list ([], []) = Inr (nx, ny)"
    and l: "length nx = length ny"
    using sum_intensity_loop_total[of "[]" "[]" 0 x_list y_list ?tol] len by auto
  have m: "sum_intensity x_list y_list ?tol = Inr (nx, ny)"
    using run by (simp add: sum_intensity_def)
  have s: "sum_list ny = sum_list y_list"
    using sum_intensity_loop_sum[OF run] len by simp
  have nn: "\<forall>v\<in>set ny. 0 \<le> v"
    using sum_intensity_loop_nonneg[OF run] len nonneg by simp
  have reps: "set nx \<subseteq> set x_list"
    using sum_intensity_loop_reps[OF run] len by simp
  from pos obtain y0 where y0: "y0 \<in> set y_list" "0 < y0" by blast
  have "y0 \<le> sum_list y_list" using y0(1) nonneg by (intro member_le_sum_list) auto
  hence sp: "0 < sum_list ny" using y0(2) s by simp
  have "\<exists>v\<in>set ny. 0 < v"
  proof (rule ccontr)
    assume "\<not> (\<exists>v\<in>set ny. 0 < v)"
    hence "sum_list ny \<le> 0" by (intro sum_list_nonpos) (auto simp: not_less)
    thus False using sp by simp
  qed
  then obtain v where v: "v \<in> set ny" "0 < v" by blast
  hence ny: "ny \<noteq> []" by auto
  have "v \<le> Max (set ny)" using v(1) by simp
  hence mx: "0 < Max (set ny)" using v(2) by simp
  let ?zs = "map (\<lambda>y. y / Max (set ny) * max_value_default) ny"
  have n: "normalize ny max_value_default = Inr ?zs"
    using ny mx by (simp add: normalize_def py_max_Max)
  have nz: "\<forall>x\<in>set nx. sin (x * pi / 360) \<noteq> 0"
  proof
    fix x assume "x \<in> set nx"
    hence "0 < x" "x < 360" using reps ang by auto
    hence "0 < x * pi / 360" "x * pi / 360 < pi" by (simp_all add: field_simps)
    hence "0 < sin (x * pi / 360)" by (rule sin_gt_zero)
    thus "sin (x * pi / 360) \<noteq> 0" by simp
  qed
  have "length nx = length ?zs" using l by simp
  from dspacing_table_total[OF ok this nz, of "wavelength self"] obtain r where
    t: "dspacing_table argsort (wavelength self) nx ?zs = Inr r" by blast
  have "get_dspacing form_lines set_iter argsort self = Inr (self, [], r)"
    using x ne y m n t by (simp add: get_dspacing_def)
  thus ?thesis by blast
qed

lemma get_dspacing_returned:
  assumes ok: "argsort_ok argsort"
    and run: "get_dspacing form_lines set_iter argsort self = Inr (self', out, rep)"
  shows "\<exists>x_list y_list nx ny zs.
     twotheta_list self' = Some x_list \<and> intensity_list self' = Some y_list \<and>
     sum_intensity x_list y_list tolerance_default = Inr (nx, ny) \<and>
     normalize ny max_value_default = Inr zs \<and>
     firstline rep = ''intensity two_theta d_spacing'' \<and>
     length (templines rep) = length nx \<and>
     mset (map (\<lambda>(inten, tt, d). (tt, inten)) (templines rep)) = mset (zip nx zs) \<and>
     sorted (rev (map fst (templines rep))) \<and>
     (\<forall>(inten, tt, d)\<in>set (templines rep). d = wavelength self / (2 * sin (tt * pi / 360)))"
proof -
  from run obtain x_list y_list nx ny zs where
    first: "(if twotheta_list self = None \<or> twotheta_list self = Some []
            then get_xrd form_lines set_iter self else Inr (self, [])) = Inr (self', out)"
    and x: "twotheta_list self' = Some x_list"
    and y: "intensity_list self' = Some y_list"
    and m: "sum_intensity x_list y_list tolerance_default = Inr (nx, ny)"
    and n: "normalize ny max_value_default = Inr zs"
    and t: "dspacing_table argsort (wavelength self') nx zs = Inr rep"
    unfolding get_dspacing_def
    by (auto split: sum.splits prod.splits option.splits)
  have wl: "wavelength self' = wavelength self"
    using first get_xrd_wavelength by (auto split: if_splits)
  let ?idx = "argsort zs"
  let ?d = "\<lambda>x. wavelength self / (2 * sin (x * pi / 360))"
  have len: "length nx = length zs"
    using sum_intensity_lengths[OF m] normalize_length[OF n] by simp
  have perm: "mset ?idx = mset [0..<length zs]"
    and srt: "sorted (map (\<lambda>i. zs ! i) ?idx)"
    using ok by (simp_all add: argsort_ok_def)
  from dspacing_table_rows[OF ok t]
  have hd: "firstline rep = ''intensity two_theta d_spacing''"
    and rows: "templines rep = map (\<lambda>i. (zs ! i, nx ! i, ?d (nx ! i))) (rev ?idx)"
    unfolding wl by simp_all
  have l: "length (templines rep) = length nx"
    using mset_eq_length[OF perm] by (simp add: rows len)
  have "mset (map (\<lambda>(inten, tt, d). (tt, inten)) (templines rep)) =
        image_mset (\<lambda>i. (nx ! i, zs ! i)) (mset ?idx)"
    by (simp add: rows comp_def)
  also have "\<dots> = mset (map (\<lambda>i. (nx ! i, zs ! i)) [0..<length zs])"
    by (simp only: perm mset_map)
  also have "map (\<lambda>i. (nx ! i, zs ! i)) [0..<length zs] = zip nx zs"
    by (rule nth_equalityI) (simp_all add: len)
  finally have ms: "mset (map (\<lambda>(inten, tt, d). (tt, inten)) (templines rep)) = mset (zip nx zs)" .
  have "rev (map fst (templines rep)) = map (\<lambda>i. zs ! i) ?idx"
    by (simp add: rows rev_map comp_def)
  hence so: "sorted (rev (map fst (templines rep)))" using srt by simp
  have dd: "\<forall>(inten, tt, d)\<in>set (templines rep). d = ?d tt"
    by (auto simp: rows)
  show ?thesis using x y m n hd l ms so dd by blast
qed

section \<open>Claims about the d-spacing report\<close>

text \<open>
  Claim C7. When \<^verbatim>\<open>get_dspacing\<close> returns, the file starts with the line
  \<^verbatim>\<open>intensity two_theta d_spacing\<close> and has one row \<open>(intensity, two_theta, d)\<close> for each
  merged peak: the pairs \<open>(two_theta, intensity)\<close> of the rows are, as a multiset,
  the merged two-theta values with their normalized intensities. The rows are
  in descending order of intensity, and in every row
  \<open>d = wavelength / (2 * sin (two_theta * pi / 360))\<close>. This holds for every argsort,
  whatever order it gives to equal intensities. And \<^verbatim>\<open>get_dspacing\<close> does return on
  an object that holds a pattern with two-theta values between 0 and 360 and
  intensities that are not negative and not all zero.
\<close>

theorem get_dspacing_report:
  assumes ok: "argsort_ok argsort"
  shows "(get_dspacing form_lines set_iter argsort self = Inr (self', out, rep) \<longrightarrow>
           (\<exists>xs ys nx ny zs.
              twotheta_list self' = Some xs \<and> intensity_list self' = Some ys \<and>
              sum_intensity xs ys tolerance_default = Inr (nx, ny) \<and>
              normalize ny max_value_default = Inr zs \<and>
              firstline rep = ''intensity two_theta d_spacing'' \<and>
              length (templines rep) = length nx \<and>
              mset (map (\<lambda>(inten, tt, d). (tt, inten)) (templines rep)) = mset (zip nx zs) \<and>
              sorted (rev (map fst (templines rep))) \<and>
              (\<forall>(inten, tt, d)\<in>set (templines rep).
                 d = wavelength self / (2 * sin (tt * pi / 360))))) \<and>
         (twotheta_list self = Some x_list \<and> x_list \<noteq> [] \<and>
          intensity_list self = Some y_list \<and> length x_list = length y_list \<and>
          (\<forall>x\<in>set x_list. 0 < x \<and> x < 360) \<and>
          (\<forall>y\<in>set y_list. 0 \<le> y) \<and> (\<exists>y\<in>set y_list. 0 < y) \<longrightarrow>
            (\<exists>r. get_dspacing form_lines set_iter argsort self = Inr (self, [], r)))"
proof (intro conjI impI)
  assume "get_dspacing form_lines set_iter argsort self = Inr (self', out, rep)"
  from get_dspacing_returned[OF ok this]
  show "\<exists>xs ys nx ny zs.
              twotheta_list self' = Some xs \<and> intensity_list self' = Some ys \<and>
              sum_intensity xs ys tolerance_default = Inr (nx, ny) \<and>
              normalize ny max_value_default = Inr zs \<and>
              firstline rep = ''intensity two_theta d_spacing'' \<and>
              length (templines rep) = length nx \<and>
              mset (map (\<lambda>(inten, tt, d). (tt, inten)) (templines rep)) = mset (zip nx zs) \<and>
              sorted (rev (map fst (templines rep))) \<and>
              (\<forall>(inten, tt, d)\<in>set (templines rep).
                 d = wavelength self / (2 * sin (tt * pi / 360)))" .
next
  assume a: "twotheta_list self = Some x_list \<and> x_list \<noteq> [] \<and>
          intensity_list self = Some y_list \<and> length x_list = length y_list \<and>
          (\<forall>x\<in>set x_list. 0 < x \<and> x < 360) \<and>
          (\<forall>y\<in>set y_list. 0 \<le> y) \<and> (\<exists>y\<in>set y_list. 0 < y)"
  show "\<exists>r. get_dspacing form_lines set_iter argsort self = Inr (self, [], r)"
    by (rule get_dspacing_cached_total[OF ok]) (use a in blast)+
qed

theorem get_dspacing_report_witness:
  "argsort_ok stable_argsort \<and>
   get_dspacing si_form remdups stable_argsort cached_cell =
     Inr (cached_cell, [],
          \<lparr> firstline = ''intensity two_theta d_spacing'',
            templines = [(100, 60, 1), (40, 120, 1 / sqrt 3)] \<rparr>) \<and>
   sorted (rev (map fst [(100 :: real, 60 :: real, 1 :: real), (40, 120, 1 / sqrt 3)])) \<and>
   twotheta_list cached_cell = Some [60, 120, 60] \<and>
   intensity_list cached_cell = Some [1, 2, 4] \<and>
   (\<exists>r. get_dspacing si_form remdups stable_argsort cached_cell = Inr (cached_cell, [], r))"
proof -
  have m: "sum_intensity [60, 120, 60] [1, 2, 4] tolerance_default = Inr ([60, 120], [5, 2])"
    by (simp add: sum_intensity_def tolerance_default_def np_where_def py_get_def)
  have n: "normalize [5, 2] max_value_default = Inr [100, 40]"
    by (simp add: normalize_def max_value_default_def)
  have a: "stable_argsort [100, 40] = [1, 0]"
    by (simp add: stable_argsort_def upt_2)
  have s1: "(60::real) * pi / 360 = pi / 6" and s2: "(120::real) * pi / 360 = pi / 3" by simp_all
  have t: "dspacing_table stable_argsort 1 [60, 120] [100, 40] =
     Inr \<lparr> firstline = ''intensity two_theta d_spacing'',
           templines = [(100, 60, 1), (40, 120, 1 / sqrt 3)] \<rparr>"
    by (simp add: dspacing_table_def a py_get_def d_spacing_def s1 s2 sin_30 sin_60 upt_2)
  have run: "get_dspacing si_form remdups stable_argsort cached_cell =
     Inr (cached_cell, [],
          \<lparr> firstline = ''intensity two_theta d_spacing'',
            templines = [(100, 60, 1), (40, 120, 1 / sqrt 3)] \<rparr>)"
    by (simp add: get_dspacing_def cached_cell_def unit_cell_def m n t)
  from get_dspacing_report[OF argsort_ok_stable, THEN conjunct1, rule_format, OF run]
  have "sorted (rev (map fst [(100 :: real, 60 :: real, 1 :: real), (40, 120, 1 / sqrt 3)]))"
    by auto
  moreover have c: "twotheta_list cached_cell = Some [60, 120, 60]"
    "intensity_list cached_cell = Some [1, 2, 4]"
    by (simp_all add: cached_cell_def)
  moreover have "\<exists>r. get_dspacing si_form remdups stable_argsort cached_cell = Inr (cached_cell, [], r)"
    by (rule get_dspacing_report[OF argsort_ok_stable, THEN conjunct2, rule_format,
          of cached_cell "[60, 120, 60]" "[1, 2, 4]"])
       (simp add: c)
  ultimately show ?thesis using argsort_ok_stable run by blast
qed

end
